theory Spec2Isabelle
  imports Main
begin

section \<open>Preview generation and caching of the file manager backend\<close>

text \<open>
  A shallow embedding of \<^verbatim>\<open>src/preview.go\<close>: the icon resolver \<^verbatim>\<open>getIconURL\<close>,
  the fallback \<^verbatim>\<open>serveIconPreview\<close>, the two generators \<^verbatim>\<open>getImagePreview\<close> and
  \<^verbatim>\<open>getExternalPreview\<close>, and the handler \<^verbatim>\<open>getFilePreview\<close>.

  Strings are byte lists, as Go's are. The file system, the clock and the log are an
  explicit state that every operation threads through; the storage drive, the image
  library and the remote preview service are fields of an environment record. A Go
  panic is a response of its own, since the recoverer middleware installed in
  \<^verbatim>\<open>src/server.go\<close> turns it into a reply to the client.
\<close>

subsection \<open>Go library functions on strings and paths\<close>

text \<open>\<^verbatim>\<open>strings.Split\<close> on one separator byte: always at least one piece.\<close>

fun splitOn :: "char \<Rightarrow> string \<Rightarrow> string list" where
  "splitOn c [] = [[]]"
| "splitOn c (x # xs) =
     (if x = c then [] # splitOn c xs
      else (case splitOn c xs of [] \<Rightarrow> [[x]] | y # ys \<Rightarrow> (x # y) # ys))"

text \<open>\<^verbatim>\<open>strings.Join\<close>.\<close>

fun joinWith :: "string \<Rightarrow> string list \<Rightarrow> string" where
  "joinWith sep [] = []"
| "joinWith sep [x] = x"
| "joinWith sep (x # y # ys) = x @ sep @ joinWith sep (y # ys)"

text \<open>
  \<^verbatim>\<open>filepath.Clean\<close> on Unix, by path elements: empty elements and \<^verbatim>\<open>.\<close> are dropped,
  an inner \<^verbatim>\<open>..\<close> removes the element before it, a \<^verbatim>\<open>..\<close> at the start of a rooted
  path is dropped and one at the start of a relative path is kept. The stack of
  elements is held in reverse.
\<close>

fun cleanStep :: "bool \<Rightarrow> string list \<Rightarrow> string \<Rightarrow> string list" where
  "cleanStep rooted stack e =
     (if e = [] \<or> e = ''.'' then stack
      else if e = ''..'' then
        (case stack of
           [] \<Rightarrow> (if rooted then [] else [''..''])
         | e' # rest \<Rightarrow> (if e' = ''..'' then ''..'' # stack else rest))
      else e # stack)"

definition isRooted :: "string \<Rightarrow> bool" where
  "isRooted p = (case p of [] \<Rightarrow> False | c # _ \<Rightarrow> c = CHR ''/'')"

definition cleanElems :: "string \<Rightarrow> string list" where
  "cleanElems p = rev (foldl (cleanStep (isRooted p)) [] (splitOn (CHR ''/'') p))"

definition Clean :: "string \<Rightarrow> string" where
  "Clean p =
     (if isRooted p then CHR ''/'' # joinWith ''/'' (cleanElems p)
      else if cleanElems p = [] then ''.''
      else joinWith ''/'' (cleanElems p))"

text \<open>
  \<^verbatim>\<open>filepath.Join\<close>: the elements from the first non-empty one on are joined with
  the separator and cleaned; with no non-empty element the result is empty.
\<close>

definition Join :: "string list \<Rightarrow> string" where
  "Join elem =
     (case dropWhile (\<lambda>e. e = []) elem of
        [] \<Rightarrow> []
      | es \<Rightarrow> Clean (joinWith ''/'' es))"

text \<open>
  \<^verbatim>\<open>filepath.Base\<close>: trailing separators are removed, then the last element is taken;
  the empty path gives \<^verbatim>\<open>.\<close>, a path of separators only gives one separator.
\<close>

definition Base :: "string \<Rightarrow> string" where
  "Base path =
     (if path = [] then ''.''
      else
        (let stripped = rev (dropWhile (\<lambda>c. c = CHR ''/'') (rev path));
             lastElem = rev (takeWhile (\<lambda>c. c \<noteq> CHR ''/'') (rev stripped))
         in if lastElem = [] then ''/'' else lastElem))"

text \<open>
  \<^verbatim>\<open>filepath.Ext\<close>: scanning from the end, the suffix from the first dot met before
  any separator; empty when a separator or the start of the path comes first.
\<close>

definition Ext :: "string \<Rightarrow> string" where
  "Ext path =
     (let r = rev path;
          tail = takeWhile (\<lambda>c. c \<noteq> CHR ''.'' \<and> c \<noteq> CHR ''/'') r
      in (case dropWhile (\<lambda>c. c \<noteq> CHR ''.'' \<and> c \<noteq> CHR ''/'') r of
            [] \<Rightarrow> []
          | c # _ \<Rightarrow> (if c = CHR ''.'' then CHR ''.'' # rev tail else [])))"

text \<open>\<^verbatim>\<open>filepath.Dir\<close>: the path up to its last separator, cleaned.\<close>

definition DirOf :: "string \<Rightarrow> string" where
  "DirOf path = Clean (rev (dropWhile (\<lambda>c. c \<noteq> CHR ''/'') (rev path)))"

text \<open>
  \<^verbatim>\<open>strconv.Atoi\<close> on a 64-bit platform: an optional sign, then one or more decimal
  digits, with a value in the range of \<^verbatim>\<open>int64\<close>; anything else is an error.
\<close>

definition isDigit :: "char \<Rightarrow> bool" where
  "isDigit c = (48 \<le> (of_char c :: nat) \<and> (of_char c :: nat) \<le> 57)"

definition digitsValue :: "string \<Rightarrow> int" where
  "digitsValue ds = foldl (\<lambda>n c. n * 10 + (int (of_char c) - 48)) 0 ds"

definition Atoi :: "string \<Rightarrow> int option" where
  "Atoi s =
     (let neg = (s \<noteq> [] \<and> hd s = CHR ''-'');
          ds = (if s \<noteq> [] \<and> (hd s = CHR ''-'' \<or> hd s = CHR ''+'') then tl s else s)
      in if ds = [] \<or> \<not> list_all isDigit ds then None
         else
           (let n = (if neg then - digitsValue ds else digitsValue ds)
            in if - (2 ^ 63) \<le> n \<and> n < 2 ^ 63 then Some n else None))"

subsection \<open>Errors, the file system and its operations\<close>

datatype error =
    ErrNotExist
  | ErrPermission
  | ErrExist
  | ErrOther string
  | PreviewService error
  | PreviewServiceStatus int

type_synonym bytes = string

text \<open>
  An entry of the file system: a regular file with its content, a directory, or an
  entry that cannot be examined (\<^verbatim>\<open>os.Stat\<close> fails on it with an error other than
  "does not exist"). Paths are looked up after cleaning; links are not modelled.
\<close>

datatype node = RegFile bytes | Directory | NoAccess

type_synonym filesystem = "string \<rightharpoonup> node"

text \<open>
  \<^verbatim>\<open>os.Stat\<close>, reduced to what the callers read: the error, or the size. The size of a
  directory depends on the system; 4096 stands for it.
\<close>

definition os_Stat :: "filesystem \<Rightarrow> string \<Rightarrow> error + int" where
  "os_Stat fs p =
     (if p = [] then Inl ErrNotExist
      else
        (case fs (Clean p) of
           None \<Rightarrow> Inl ErrNotExist
         | Some (RegFile b) \<Rightarrow> Inr (int (length b))
         | Some Directory \<Rightarrow> Inr 4096
         | Some NoAccess \<Rightarrow> Inl ErrPermission))"

text \<open>\<^verbatim>\<open>os.IsNotExist\<close> on the error of a call (\<^verbatim>\<open>nil\<close> is \<open>None\<close>).\<close>

definition os_IsNotExist :: "error option \<Rightarrow> bool" where
  "os_IsNotExist err = (err = Some ErrNotExist)"

definition errOf :: "error + 'a \<Rightarrow> error option" where
  "errOf r = (case r of Inl e \<Rightarrow> Some e | Inr _ \<Rightarrow> None)"

text \<open>
  A file can be created or truncated at a path whose parent is a directory and which
  is not itself a directory or an inaccessible entry. \<^verbatim>\<open>os.Create\<close> leaves an empty
  file; \<^verbatim>\<open>os.WriteFile\<close> leaves the given content. Writing to a file that was opened
  is taken to succeed.
\<close>

definition canCreate :: "filesystem \<Rightarrow> string \<Rightarrow> bool" where
  "canCreate fs p =
     (p \<noteq> [] \<and> fs (DirOf (Clean p)) = Some Directory \<and>
      (case fs (Clean p) of
         None \<Rightarrow> True
       | Some (RegFile _) \<Rightarrow> True
       | Some Directory \<Rightarrow> False
       | Some NoAccess \<Rightarrow> False))"

definition os_WriteFile :: "filesystem \<Rightarrow> string \<Rightarrow> bytes \<Rightarrow> error + filesystem" where
  "os_WriteFile fs p b =
     (if canCreate fs p then Inr (fs(Clean p \<mapsto> RegFile b)) else Inl ErrPermission)"

definition os_Create :: "filesystem \<Rightarrow> string \<Rightarrow> error + filesystem" where
  "os_Create fs p = os_WriteFile fs p []"

text \<open>\<^verbatim>\<open>os.Mkdir\<close>: the parent must be a directory and the path must be free.\<close>

definition os_Mkdir :: "filesystem \<Rightarrow> string \<Rightarrow> error + filesystem" where
  "os_Mkdir fs p =
     (if p = [] then Inl ErrNotExist
      else if fs (Clean p) \<noteq> None then Inl ErrExist
      else if fs (DirOf (Clean p)) \<noteq> Some Directory then Inl ErrNotExist
      else Inr (fs(Clean p \<mapsto> Directory)))"

subsection \<open>The icon resolver\<close>

text \<open>The character class of the regular expression \<^verbatim>\<open>[^A-Za-z0-9.]\<close>, negated.\<close>

definition isIconChar :: "char \<Rightarrow> bool" where
  "isIconChar c =
     (let n = (of_char c :: nat)
      in (65 \<le> n \<and> n \<le> 90) \<or> (97 \<le> n \<and> n \<le> 122) \<or> (48 \<le> n \<and> n \<le> 57) \<or> n = 46)"

text \<open>
  \<^verbatim>\<open>re.ReplaceAllString(name, "")\<close>: every byte outside the class is removed. A rune
  outside ASCII consists of bytes from 128 up, none of which is in the class, so
  removing bytes removes exactly the runes the expression matches.
\<close>

definition sanitize :: "string \<Rightarrow> string" where
  "sanitize name = filter isIconChar name"

definition getIconURL :: "filesystem \<Rightarrow> string \<Rightarrow> string \<Rightarrow> string" where
  "getIconURL fs name sz =
     (let name' = sanitize name;
          test = ''icons/'' @ sz @ ''/'' @ name';
          err = errOf (os_Stat fs test)
      in if \<not> os_IsNotExist err then test
         else ''icons/'' @ sz @ ''/file.svg'')"

subsection \<open>Configuration, metadata and the collaborators of the handler\<close>

text \<open>The configuration, as declared beside \<^verbatim>\<open>AppConfig\<close>.\<close>

record ConfigServer =
  URL :: string
  Port :: string
  Cors :: "string list"

record AppConfig =
  Server :: ConfigServer
  Root :: string
  Preview :: string
  UploadLimit :: int
  Readonly :: bool

text \<open>
  Modelled from the spec: the type \<^verbatim>\<open>wfs.File\<close> of the storage package is not part of
  the sources at hand. The spec's FileMetadata has an identifier, a display name, a
  byte size, a kind and a modification instant; the handler reads \<^verbatim>\<open>Name\<close>,
  \<^verbatim>\<open>Size\<close> and \<^verbatim>\<open>Type\<close>.
\<close>

record wfs_File =
  ID :: string
  Name :: string
  Size :: int
  Type :: string
  Date :: int

text \<open>
  The reply of the remote preview service: the status code, the value of its
  \<^verbatim>\<open>Content-type\<close> header, the bytes its body delivers, and the error the body ends
  with when the transfer breaks (\<open>None\<close> at a regular end).
\<close>

record http_response =
  StatusCode :: int
  ContentType :: string
  Body :: bytes
  BodyErr :: "error option"

text \<open>
  The four parts of the multipart request body. The file part is \<open>None\<close> when
  \<^verbatim>\<open>drive.Read\<close> failed: the handler drops that error at line 108 and passes the
  reader it got, a nil one, on to \<^verbatim>\<open>getExternalPreview\<close>.
\<close>

record multipart =
  form_width :: string
  form_height :: string
  form_name :: string
  form_file :: "bytes option"

text \<open>
  The collaborators. \<^verbatim>\<open>drive.Info\<close> is asked at a time (in nanoseconds) and answers
  with metadata or an error, after the duration given beside the answer (a call
  never returns before it started: a negative duration counts as none); the storage
  layer may answer differently at different times. The image library decodes,
  resizes and encodes; its encoder returns the bytes it wrote and the error it ended
  with. \<^verbatim>\<open>http.NewRequest\<close> rejects some URLs; \<^verbatim>\<open>client.Do\<close> stands for the
  exchange with the remote service. The body of the request is the read end of a
  pipe that a goroutine of its own fills (lines 149 to 180), and a pipe hands over
  nothing before it is read: \<open>body_consumed\<close> tells whether the transport reads the
  body as far as the content of the file part, which is when that goroutine arrives
  at \<^verbatim>\<open>io.Copy(fw, file)\<close> in line 179 (a transport that fails before, say on a refused
  connection, closes the body, and the goroutine ends at its next write).
\<close>

record 'img env =
  drive_Info :: "int \<Rightarrow> string \<Rightarrow> (error + wfs_File) \<times> int"
  drive_Read :: "string \<Rightarrow> error + bytes"
  imaging_Decode :: "bytes \<Rightarrow> error + 'img"
  imaging_Thumbnail :: "'img \<Rightarrow> int \<Rightarrow> int \<Rightarrow> 'img"
  jpeg_Encode :: "'img \<Rightarrow> bytes \<times> error option"
  http_NewRequest :: "string \<Rightarrow> error option"
  client_Do :: "string \<Rightarrow> multipart \<Rightarrow> error + http_response"
  body_consumed :: "string \<Rightarrow> multipart \<Rightarrow> bool"

text \<open>What the handler leaves behind besides the files: the generator calls and the log.\<close>

datatype event =
    LocalGenerator string int int string
  | ExternalGenerator string string string string
  | LogPrint error

record world =
  files :: filesystem
  clock :: int
  trace :: "event list"

text \<open>
  What the handler does to the response writer: \<^verbatim>\<open>http.ServeFile\<close> with a path,
  \<^verbatim>\<open>format.Text\<close> with a status and a message, or a panic of the handler itself.
  \<open>ProcessDies\<close> is the end of the whole process on a panic in another goroutine, which
  nothing recovers from: no response is written.
\<close>

datatype response =
    HttpServeFile string
  | FormatText int string
  | GoPanic string
  | ProcessDies

text \<open>The query parameters in order; \<^verbatim>\<open>Query().Get\<close> is the first value, or empty.\<close>

type_synonym request = "(string \<times> string) list"

definition queryGet :: "request \<Rightarrow> string \<Rightarrow> string" where
  "queryGet r k = (case map_of r k of None \<Rightarrow> [] | Some v \<Rightarrow> v)"

subsection \<open>The fallback icon\<close>

text \<open>
  \<^verbatim>\<open>serveIconPreview\<close>. The slice \<^verbatim>\<open>filepath.Ext(info.Name)[1:]\<close> panics on an empty
  extension.
\<close>

definition serveIconPreview :: "filesystem \<Rightarrow> wfs_File option \<Rightarrow> response" where
  "serveIconPreview fs info =
     (case info of
        Some i \<Rightarrow>
          (case Ext (Name i) of
             [] \<Rightarrow> GoPanic ''slice bounds out of range [1:0]''
           | _ # name \<Rightarrow> HttpServeFile (getIconURL fs (name @ ''.svg'') ''big''))
      | None \<Rightarrow> HttpServeFile (getIconURL fs (''unavailable'' @ ''.svg'') ''big''))"

text \<open>
  The handler of \<^verbatim>\<open>GET /icons/{size}/{name}\<close> in \<^verbatim>\<open>src/server.go\<close>, lines 390 to
  395: both parameters go to the resolver as the router delivers them.
\<close>

definition iconsHandler :: "filesystem \<Rightarrow> string \<Rightarrow> string \<Rightarrow> response" where
  "iconsHandler fs name sz = HttpServeFile (getIconURL fs name sz)"

subsection \<open>Resolving the metadata\<close>

definition Millisecond :: int where
  "Millisecond = 1000000"

definition Second :: int where
  "Second = 1000 * Millisecond"

text \<open>
  One call of \<^verbatim>\<open>drive.Info\<close>: when it started, when it returned and what it returned.
\<close>

record attempt =
  started :: int
  ended :: int
  outcome :: "error + wfs_File"

text \<open>
  The loop of lines 63 to 69, as the list of the calls it makes: after a call it
  breaks when the call succeeded or the clock is past the deadline, and sleeps 100 ms
  otherwise. \<^verbatim>\<open>info\<close> and \<^verbatim>\<open>err\<close> after the loop are those of the last call.
\<close>

function pollInfo :: "'img env \<Rightarrow> string \<Rightarrow> int \<Rightarrow> int \<Rightarrow> attempt list" where
  "pollInfo env ident deadline now =
     (let r = drive_Info env now ident;
          a = \<lparr>started = now, ended = now + max 0 (snd r), outcome = fst r\<rparr>
      in if errOf (fst r) = None \<or> deadline < now + max 0 (snd r) then [a]
         else a # pollInfo env ident deadline (now + max 0 (snd r) + 100 * Millisecond))"
  by pat_completeness auto
termination
  by (relation "measure (\<lambda>(env, ident, deadline, now). nat (deadline + 1 - now))")
     (auto simp: Millisecond_def)

declare pollInfo.simps [simp del]

text \<open>Lines 61 to 69: the deadline is ten seconds from now; the last call decides.\<close>

definition resolveInfo :: "'img env \<Rightarrow> string \<Rightarrow> int \<Rightarrow> attempt" where
  "resolveInfo env ident now = last (pollInfo env ident (now + 10 * Second) now)"

subsection \<open>The generators\<close>

text \<open>\<^verbatim>\<open>imaging.Open\<close>: the file is read and decoded.\<close>

definition imaging_Open :: "'img env \<Rightarrow> filesystem \<Rightarrow> string \<Rightarrow> error + 'img" where
  "imaging_Open env fs filename =
     (if filename = [] then Inl ErrNotExist
      else
        (case fs (Clean filename) of
           None \<Rightarrow> Inl ErrNotExist
         | Some (RegFile b) \<Rightarrow> imaging_Decode env b
         | Some Directory \<Rightarrow> Inl (ErrOther ''is a directory'')
         | Some NoAccess \<Rightarrow> Inl ErrPermission))"

text \<open>
  \<^verbatim>\<open>imaging.Save\<close> to a \<^verbatim>\<open>.jpg\<close> name: the file is created, the encoder writes into
  it, and the encoder's error is returned.
\<close>

definition imaging_Save :: "'img env \<Rightarrow> filesystem \<Rightarrow> 'img \<Rightarrow> string \<Rightarrow> error option \<times> filesystem" where
  "imaging_Save env fs img filename =
     (case os_Create fs filename of
        Inl e \<Rightarrow> (Some e, fs)
      | Inr fs' \<Rightarrow> (snd (jpeg_Encode env img), fs'(Clean filename \<mapsto> RegFile (fst (jpeg_Encode env img)))))"

text \<open>\<^verbatim>\<open>getImagePreview\<close>; the call is recorded in the trace.\<close>

definition getImagePreview ::
  "'img env \<Rightarrow> string \<Rightarrow> int \<Rightarrow> int \<Rightarrow> string \<Rightarrow> world \<Rightarrow> string \<times> error option \<times> world" where
  "getImagePreview env source width height preview w =
     (let w0 = w\<lparr>trace := trace w @ [LocalGenerator source width height preview]\<rparr>
      in case imaging_Open env (files w0) source of
           Inl e \<Rightarrow> ([], Some e, w0)
         | Inr src \<Rightarrow>
             (let dst = imaging_Thumbnail env src width height;
                  saved = imaging_Save env (files w0) dst (preview @ ''.jpg'')
              in case fst saved of
                   Some e \<Rightarrow> ([], Some e, w0\<lparr>files := snd saved\<rparr>)
                 | None \<Rightarrow> (''.jpg'', None, w0\<lparr>files := snd saved\<rparr>)))"

text \<open>
  How a call of the external generator ends: it returns an extension and an error, or
  the process dies before it returns.
\<close>

datatype generated =
    Returns string "error option" world
  | Dies world

text \<open>
  \<^verbatim>\<open>getExternalPreview\<close>; the call is recorded in the trace. Lines 144 to 180 start the
  goroutine that writes the four parts into the pipe. When \<^verbatim>\<open>http.NewRequest\<close> fails,
  the deferred \<^verbatim>\<open>body.Close()\<close> ends that goroutine at its first write. Otherwise
  the transport reads the body; with the nil reader of a failed \<^verbatim>\<open>drive.Read\<close>, the
  goroutine panics in \<^verbatim>\<open>io.Copy(fw, file)\<close> at line 179 as soon as the body is read that
  far, and the process dies. With a reader, the parts are what \<open>client_Do\<close> receives.
\<close>

definition getExternalPreview ::
  "'img env \<Rightarrow> AppConfig \<Rightarrow> bytes option \<Rightarrow> string \<Rightarrow> string \<Rightarrow> string \<Rightarrow> string \<Rightarrow> world
     \<Rightarrow> generated" where
  "getExternalPreview env Config file preview name width height w =
     (let w0 = w\<lparr>trace := trace w @ [ExternalGenerator preview name width height]\<rparr>;
          form = \<lparr>form_width = width, form_height = height, form_name = name, form_file = file\<rparr>
      in case http_NewRequest env (Preview Config) of
           Some e \<Rightarrow> Returns [] (Some e) w0
         | None \<Rightarrow>
             if file = None \<and> body_consumed env (Preview Config) form then Dies w0
             else
               (case client_Do env (Preview Config) form of
                  Inl e \<Rightarrow> Returns [] (Some (PreviewService e)) w0
                | Inr res \<Rightarrow>
                    if StatusCode res \<noteq> 200
                    then Returns [] (Some (PreviewServiceStatus (StatusCode res))) w0
                    else
                      (let ext = (if ContentType res = ''image/png'' then ''.png'' else ''.jpg'')
                       in case os_Create (files w0) (preview @ ext) of
                            Inl e \<Rightarrow> Returns [] (Some e) w0
                          | Inr fs' \<Rightarrow>
                              Returns ext (BodyErr res)
                                (w0\<lparr>files := fs'(Clean (preview @ ext) \<mapsto> RegFile (Body res))\<rparr>))))"

subsection \<open>The handler\<close>

text \<open>Lines 52 to 59: a dimension that does not parse takes its default.\<close>

definition dimension :: "string \<Rightarrow> int \<Rightarrow> int" where
  "dimension s dflt = (case Atoi s of None \<Rightarrow> dflt | Some n \<Rightarrow> n)"

text \<open>A call whose error the handler drops: the file system changes only on success.\<close>

definition ignoreErr :: "filesystem \<Rightarrow> error + filesystem \<Rightarrow> filesystem" where
  "ignoreErr fs r = (case r of Inl _ \<Rightarrow> fs | Inr fs' \<Rightarrow> fs')"

text \<open>
  Lines 104 to 125, entered with the error \<open>err\<close> of the second \<^verbatim>\<open>os.Stat\<close> and
  \<^verbatim>\<open>ext\<close> at \<^verbatim>\<open>.png\<close>: both keep their value when no generator applies. The error
  of \<^verbatim>\<open>drive.Read\<close> is dropped and the reader passed on as it is; when the process
  dies in the external generator, the handler never gets to line 119.
\<close>

definition generatePreview ::
  "'img env \<Rightarrow> AppConfig \<Rightarrow> string \<Rightarrow> wfs_File \<Rightarrow> int \<Rightarrow> int \<Rightarrow> string \<Rightarrow> string
     \<Rightarrow> string \<Rightarrow> string \<Rightarrow> string \<Rightarrow> string \<Rightarrow> error \<Rightarrow> world \<Rightarrow> response \<times> world" where
  "generatePreview env Config ident info width height widthStr heightStr source name folder preview err w =
     (let w1 = w\<lparr>files := ignoreErr (files w) (os_Mkdir (files w) folder)\<rparr>;
          g = (if Preview Config \<noteq> [] then
                 getExternalPreview env Config
                   (case drive_Read env ident of Inl _ \<Rightarrow> None | Inr b \<Rightarrow> Some b)
                   preview name widthStr heightStr w1
               else if Type info = ''image'' then
                 (let l = getImagePreview env source width height preview w1
                  in Returns (fst l) (fst (snd l)) (snd (snd l)))
               else Returns ''.png'' (Some err) w1)
      in case g of
           Dies wd \<Rightarrow> (ProcessDies, wd)
         | Returns ext (Some e) wg \<Rightarrow>
             (let w2 = wg\<lparr>trace := trace wg @ [LogPrint e]\<rparr>;
                  w3 = w2\<lparr>files := ignoreErr (files w2) (os_WriteFile (files w2) (preview @ ''.jpg'') [])\<rparr>
              in (serveIconPreview (files w3) (Some info), w3))
         | Returns ext None wg \<Rightarrow> (HttpServeFile (preview @ ext), wg))"

text \<open>Lines 86 to 125: the cached artifact is probed as \<^verbatim>\<open>.jpg\<close>, then as \<^verbatim>\<open>.png\<close>.\<close>

definition servePreview ::
  "'img env \<Rightarrow> AppConfig \<Rightarrow> string \<Rightarrow> wfs_File \<Rightarrow> int \<Rightarrow> int \<Rightarrow> string \<Rightarrow> string
     \<Rightarrow> string \<Rightarrow> string \<Rightarrow> string \<Rightarrow> string \<Rightarrow> world \<Rightarrow> response \<times> world" where
  "servePreview env Config ident info width height widthStr heightStr source name folder preview w =
     (case os_Stat (files w) (preview @ ''.jpg'') of
        Inr sz \<Rightarrow>
          (if sz = 0 then (serveIconPreview (files w) (Some info), w)
           else (HttpServeFile (preview @ ''.jpg''), w))
      | Inl _ \<Rightarrow>
          (case os_Stat (files w) (preview @ ''.png'') of
             Inr sz \<Rightarrow>
               (if sz = 0 then (serveIconPreview (files w) (Some info), w)
                else (HttpServeFile (preview @ ''.png''), w))
           | Inl err \<Rightarrow>
               generatePreview env Config ident info width height widthStr heightStr
                 source name folder preview err w))"

text \<open>
  Lines 81 to 84. The slice \<^verbatim>\<open>id[:len(id)-len(name)]\<close> panics when the base name of
  the source is longer than the identifier.
\<close>

definition previewFolder :: "AppConfig \<Rightarrow> string \<Rightarrow> string" where
  "previewFolder Config ident =
     (let source = Join [Root Config, ident]; name = Base source
      in Join [Root Config, take (length ident - length name) ident, ''.preview''])"

definition previewPath :: "AppConfig \<Rightarrow> string \<Rightarrow> string \<Rightarrow> string \<Rightarrow> string" where
  "previewPath Config ident widthStr heightStr =
     (let source = Join [Root Config, ident]; name = Base source
      in Join [previewFolder Config ident, name @ ''___'' @ widthStr @ ''x'' @ heightStr])"

text \<open>\<^verbatim>\<open>getFilePreview\<close>.\<close>

definition getFilePreview :: "'img env \<Rightarrow> AppConfig \<Rightarrow> request \<Rightarrow> world \<Rightarrow> response \<times> world" where
  "getFilePreview env Config r w =
     (if Preview Config = ''none'' then (FormatText 500 ''Previews not configured'', w)
      else
        (let ident = queryGet r ''id'';
             widthStr = queryGet r ''width'';
             heightStr = queryGet r ''height'';
             width = dimension widthStr 214;
             height = dimension heightStr 163;
             a = resolveInfo env ident (clock w);
             w1 = w\<lparr>clock := ended a\<rparr>
         in case outcome a of
              Inl err \<Rightarrow> (serveIconPreview (files w1) None, w1)
            | Inr info \<Rightarrow>
                if Size info > 50 * 1000 * 1000 \<or> width > 2000 \<or> height > 2000
                then (serveIconPreview (files w1) (Some info), w1)
                else
                  (let source = Join [Root Config, ident];
                       name = Base source
                   in if length ident < length name
                      then (GoPanic ''slice bounds out of range'', w1)
                      else servePreview env Config ident info width height widthStr heightStr
                             source name (previewFolder Config ident)
                             (previewPath Config ident widthStr heightStr) w1)))"

subsection \<open>Notions of the specification\<close>

text \<open>The character class \<^verbatim>\<open>[A-Za-z0-9.]\<close> of the specification, written out.\<close>

definition iconChars :: string where
  "iconChars = ''ABCDEFGHIJKLMNOPQRSTUVWXYZabcdefghijklmnopqrstuvwxyz0123456789.''"

text \<open>
  A path lies in the icons directory when it is relative and, once cleaned, starts
  with the element \<^verbatim>\<open>icons\<close>.
\<close>

definition withinIcons :: "string \<Rightarrow> bool" where
  "withinIcons p = (case cleanElems p of [] \<Rightarrow> False | e # _ \<Rightarrow> e = ''icons'' \<and> isRooted p = False)"

text \<open>A size bucket that is one plain path element.\<close>

definition plainElement :: "string \<Rightarrow> bool" where
  "plainElement e = (e \<noteq> [] \<and> e \<noteq> ''.'' \<and> e \<noteq> ''..'' \<and> CHR ''/'' \<notin> set e)"

text \<open>A success status in the sense of HTTP: the class 2xx.\<close>

definition httpSuccess :: "int \<Rightarrow> bool" where
  "httpSuccess code = (200 \<le> code \<and> code < 300)"

text \<open>The events that are generator calls.\<close>

fun isGenerator :: "event \<Rightarrow> bool" where
  "isGenerator (LocalGenerator _ _ _ _) = True"
| "isGenerator (ExternalGenerator _ _ _ _) = True"
| "isGenerator (LogPrint _) = False"

text \<open>The bytes \<^verbatim>\<open>http.ServeFile\<close> finds at the path of a response, if it is a regular file.\<close>

definition servedBytes :: "filesystem \<Rightarrow> response \<Rightarrow> bytes option" where
  "servedBytes fs resp =
     (case resp of
        HttpServeFile p \<Rightarrow> (case fs (Clean p) of Some (RegFile b) \<Rightarrow> Some b | _ \<Rightarrow> None)
      | _ \<Rightarrow> None)"

subsection \<open>A concrete installation\<close>

text \<open>
  A storage root with a photo, a makefile and three documents, the icon set, a local
  image library and a remote preview service; the inputs the statements below are
  evaluated at. The service answers 201 for \<^verbatim>\<open>a.txt\<close>, 200 with an empty body for
  \<^verbatim>\<open>empty.txt\<close> and 200 with a PNG otherwise.
\<close>

definition photoInfo :: wfs_File where
  "photoInfo = \<lparr>ID = ''photos/a.jpg'', Name = ''a.jpg'', Size = 10000, Type = ''image'', Date = 0\<rparr>"

definition makefileInfo :: wfs_File where
  "makefileInfo = \<lparr>ID = ''src/Makefile'', Name = ''Makefile'', Size = 1200, Type = ''code'', Date = 0\<rparr>"

definition textInfo :: wfs_File where
  "textInfo = \<lparr>ID = ''docs/a.txt'', Name = ''a.txt'', Size = 300, Type = ''document'', Date = 0\<rparr>"

definition emptyInfo :: wfs_File where
  "emptyInfo = \<lparr>ID = ''docs/empty.txt'', Name = ''empty.txt'', Size = 0, Type = ''document'', Date = 0\<rparr>"

definition reportInfo :: wfs_File where
  "reportInfo = \<lparr>ID = ''docs/report.txt'', Name = ''report.txt'', Size = 900, Type = ''document'', Date = 0\<rparr>"

definition sampleInfo :: "string \<Rightarrow> error + wfs_File" where
  "sampleInfo ident =
     (if ident = ''photos/a.jpg'' then Inr photoInfo
      else if ident = ''src/Makefile'' then Inr makefileInfo
      else if ident = ''docs/a.txt'' then Inr textInfo
      else if ident = ''docs/empty.txt'' then Inr emptyInfo
      else if ident = ''docs/report.txt'' then Inr reportInfo
      else Inl ErrNotExist)"

definition sampleService :: "string \<Rightarrow> multipart \<Rightarrow> error + http_response" where
  "sampleService url form =
     (if form_name form = ''a.txt'' then
        Inr \<lparr>StatusCode = 201, ContentType = ''image/png'', Body = ''PNG'', BodyErr = None\<rparr>
      else if form_name form = ''empty.txt'' then
        Inr \<lparr>StatusCode = 200, ContentType = ''image/jpeg'', Body = [], BodyErr = None\<rparr>
      else
        Inr \<lparr>StatusCode = 200, ContentType = ''image/png'', Body = ''PNG'', BodyErr = None\<rparr>)"

definition sampleEnv :: "(nat \<times> nat) env" where
  "sampleEnv =
     \<lparr>drive_Info = (\<lambda>t ident. (sampleInfo ident, 0)),
      drive_Read = (\<lambda>ident. Inr ''content''),
      imaging_Decode = (\<lambda>b. Inr (4, 3)),
      imaging_Thumbnail = (\<lambda>img w h. (nat w, nat h)),
      jpeg_Encode = (\<lambda>img. (''JPEG'', None)),
      http_NewRequest = (\<lambda>url. None),
      client_Do = sampleService,
      body_consumed = (\<lambda>url form. True)\<rparr>"

text \<open>A storage layer that shows a new entry only 250 ms after the start, each call taking 10 ms.\<close>

definition lateEnv :: "(nat \<times> nat) env" where
  "lateEnv =
     sampleEnv\<lparr>drive_Info :=
       (\<lambda>t ident. (if t < 250 * Millisecond then Inl ErrNotExist else sampleInfo ident,
                    10 * Millisecond))\<rparr>"

definition localConfig :: AppConfig where
  "localConfig =
     \<lparr>Server = \<lparr>URL = [], Port = '':3200'', Cors = []\<rparr>, Root = ''/data'', Preview = [],
      UploadLimit = 10000000, Readonly = False\<rparr>"

definition remoteConfig :: AppConfig where
  "remoteConfig = localConfig\<lparr>Preview := ''http://localhost:3201/preview''\<rparr>"

definition noneConfig :: AppConfig where
  "noneConfig = localConfig\<lparr>Preview := ''none''\<rparr>"

definition sampleFiles :: filesystem where
  "sampleFiles =
     [''/data'' \<mapsto> Directory,
      ''/data/photos'' \<mapsto> Directory,
      ''/data/photos/a.jpg'' \<mapsto> RegFile ''source'',
      ''/data/src'' \<mapsto> Directory,
      ''/data/src/Makefile'' \<mapsto> RegFile ''all:'',
      ''/data/docs'' \<mapsto> Directory,
      ''/data/docs/a.txt'' \<mapsto> RegFile ''text'',
      ''/data/docs/empty.txt'' \<mapsto> RegFile [],
      ''/data/docs/report.txt'' \<mapsto> RegFile ''report'',
      ''icons'' \<mapsto> Directory,
      ''icons/big'' \<mapsto> Directory,
      ''icons/big/file.svg'' \<mapsto> RegFile ''<svg/>'',
      ''icons/big/jpg.svg'' \<mapsto> RegFile ''<svg/>'',
      ''icons/big/txt.svg'' \<mapsto> RegFile ''<svg/>'']"

definition sampleWorld :: world where
  "sampleWorld = \<lparr>files = sampleFiles, clock = 0, trace = []\<rparr>"

text \<open>The same world once the preview folder of the documents exists.\<close>

definition docsWorld :: world where
  "docsWorld = sampleWorld\<lparr>files := (files sampleWorld)(''/data/docs/.preview'' \<mapsto> Directory)\<rparr>"

definition request :: "string \<Rightarrow> string \<Rightarrow> string \<Rightarrow> request" where
  "request ident widthStr heightStr = [(''id'', ident), (''width'', widthStr), (''height'', heightStr)]"

text \<open>The same request with the width left out.\<close>

definition requestNoWidth :: "string \<Rightarrow> string \<Rightarrow> request" where
  "requestNoWidth ident heightStr = [(''id'', ident), (''height'', heightStr)]"

text \<open>
  The world that the first request for the photo at 100x100 leaves behind, with a
  foreign file put at the \<^verbatim>\<open>.png\<close> path of the same key.
\<close>

definition shadowedWorld :: world where
  "shadowedWorld =
     (let w = snd (getFilePreview sampleEnv localConfig (request ''photos/a.jpg'' ''100'' ''100'')
                     sampleWorld)
      in w\<lparr>files := (files w)(''/data/photos/.preview/a.jpg___100x100.png'' \<mapsto> RegFile ''OTHER'')\<rparr>)"

text \<open>A storage layer whose \<^verbatim>\<open>drive.Read\<close> fails.\<close>

definition unreadableEnv :: "(nat \<times> nat) env" where
  "unreadableEnv = sampleEnv\<lparr>drive_Read := (\<lambda>ident. Inl ErrPermission)\<rparr>"

section \<open>Properties\<close>

subsection \<open>Paths\<close>

lemma isIconChar_iff: "isIconChar c = (c \<in> set iconChars)"
proof (cases c)
  case (Char x1 x2 x3 x4 x5 x6 x7 x8)
  show ?thesis
    unfolding Char isIconChar_def iconChars_def
    by (cases x1; cases x2; cases x3; cases x4; cases x5; cases x6; cases x7; cases x8) simp_all
qed

lemma splitOn_notin: "c \<notin> set xs \<Longrightarrow> splitOn c xs = [xs]"
  by (induction xs) auto

lemma splitOn_append: "c \<notin> set xs \<Longrightarrow> splitOn c (xs @ c # ys) = xs # splitOn c ys"
  by (induction xs) auto

lemma Ext_no_dot: "CHR ''.'' \<notin> set p \<Longrightarrow> Ext p = []"
proof -
  assume a: "CHR ''.'' \<notin> set p"
  let ?P = "\<lambda>c. c \<noteq> CHR ''.'' \<and> c \<noteq> CHR ''/''"
  show ?thesis
  proof (cases "dropWhile ?P (rev p)")
    case Nil
    show ?thesis unfolding Ext_def Let_def Nil by simp
  next
    case (Cons c cs)
    then have "c \<in> set (rev p)" by (metis list.set_intros(1) set_dropWhileD)
    with a have "c \<noteq> CHR ''.''" by auto
    then show ?thesis unfolding Ext_def Let_def Cons by simp
  qed
qed

lemma sanitize_no_slash: "CHR ''/'' \<notin> set (sanitize name)"
  by (simp add: sanitize_def isIconChar_def)

lemma cleanElems_icons:
  assumes "plainElement sz" "CHR ''/'' \<notin> set t"
  shows "cleanElems (''icons/'' @ sz @ ''/'' @ t) =
           (if t = [] \<or> t = ''.'' then [''icons'', sz]
            else if t = ''..'' then [''icons'']
            else [''icons'', sz, t])"
proof -
  have s: "splitOn (CHR ''/'') (''icons/'' @ sz @ ''/'' @ t) = [''icons'', sz, t]"
    using assms by (simp add: plainElement_def splitOn_append splitOn_notin)
  show ?thesis
    unfolding cleanElems_def s using assms(1) by (simp add: isRooted_def plainElement_def)
qed

lemma withinIcons_icons:
  assumes "plainElement sz" "CHR ''/'' \<notin> set t"
  shows "withinIcons (''icons/'' @ sz @ ''/'' @ t)"
  unfolding withinIcons_def cleanElems_icons [OF assms] by (simp add: isRooted_def)

lemma cleanElems_escape:
  assumes "CHR ''/'' \<notin> set t"
  shows "\<exists>es. cleanElems (''icons/../../'' @ t) = ''..'' # es"
proof -
  have s: "splitOn (CHR ''/'') (''icons/../../'' @ t) = [''icons'', ''..'', ''..'', t]"
    using assms by (simp add: splitOn_notin)
  show ?thesis
    unfolding cleanElems_def s by (simp add: isRooted_def)
qed

lemma not_withinIcons_escape:
  assumes "CHR ''/'' \<notin> set t"
  shows "\<not> withinIcons (''icons/../../'' @ t)"
  using cleanElems_escape [OF assms] by (auto simp: withinIcons_def)

lemma getIconURL_cases:
  "getIconURL fs name sz =
     (if os_Stat fs (''icons/'' @ sz @ ''/'' @ sanitize name) = Inl ErrNotExist
      then ''icons/'' @ sz @ ''/file.svg''
      else ''icons/'' @ sz @ ''/'' @ sanitize name)"
  by (auto simp: getIconURL_def Let_def os_IsNotExist_def errOf_def split: sum.splits)

subsection \<open>The polling loop\<close>

lemma pollInfo_stop:
  "errOf (fst (drive_Info env now ident)) = None \<or> deadline < now + max 0 (snd (drive_Info env now ident)) \<Longrightarrow>
   pollInfo env ident deadline now =
     [\<lparr>started = now, ended = now + max 0 (snd (drive_Info env now ident)),
       outcome = fst (drive_Info env now ident)\<rparr>]"
  by (subst pollInfo.simps) (simp only: Let_def if_True)

lemma pollInfo_continue:
  "\<not> (errOf (fst (drive_Info env now ident)) = None \<or> deadline < now + max 0 (snd (drive_Info env now ident))) \<Longrightarrow>
   pollInfo env ident deadline now =
     \<lparr>started = now, ended = now + max 0 (snd (drive_Info env now ident)),
      outcome = fst (drive_Info env now ident)\<rparr>
     # pollInfo env ident deadline (now + max 0 (snd (drive_Info env now ident)) + 100 * Millisecond)"
  by (subst pollInfo.simps) (simp only: Let_def if_False)

lemma pollInfo_nonempty: "pollInfo env ident deadline now \<noteq> []"
  by (subst pollInfo.simps) (simp add: Let_def)

lemma pollInfo_hd: "started (hd (pollInfo env ident deadline now)) = now"
  by (subst pollInfo.simps) (simp add: Let_def)

lemma pollInfo_each:
  "k < length (pollInfo env ident deadline now) \<Longrightarrow>
     outcome (pollInfo env ident deadline now ! k) =
       fst (drive_Info env (started (pollInfo env ident deadline now ! k)) ident)
     \<and> ended (pollInfo env ident deadline now ! k) =
       started (pollInfo env ident deadline now ! k)
         + max 0 (snd (drive_Info env (started (pollInfo env ident deadline now ! k)) ident))"
proof (induction env ident deadline now arbitrary: k rule: pollInfo.induct)
  case (1 env ident deadline now)
  let ?r = "drive_Info env now ident"
  let ?rest = "pollInfo env ident deadline (now + max 0 (snd ?r) + 100 * Millisecond)"
  show ?case
  proof (cases "errOf (fst ?r) = None \<or> deadline < now + max 0 (snd ?r)")
    case True
    from "1.prems" show ?thesis unfolding pollInfo_stop [OF True] by simp
  next
    case False
    show ?thesis
    proof (cases k)
      case 0
      then show ?thesis unfolding pollInfo_continue [OF False] by simp
    next
      case (Suc j)
      with "1.prems" have "j < length ?rest" unfolding pollInfo_continue [OF False] by simp
      from "1.IH" [OF refl refl False this] Suc show ?thesis
        unfolding pollInfo_continue [OF False] by simp
    qed
  qed
qed

lemma pollInfo_steps:
  "Suc k < length (pollInfo env ident deadline now) \<Longrightarrow>
     errOf (outcome (pollInfo env ident deadline now ! k)) \<noteq> None
     \<and> ended (pollInfo env ident deadline now ! k) \<le> deadline
     \<and> started (pollInfo env ident deadline now ! Suc k) =
         ended (pollInfo env ident deadline now ! k) + 100 * Millisecond"
proof (induction env ident deadline now arbitrary: k rule: pollInfo.induct)
  case (1 env ident deadline now)
  let ?r = "drive_Info env now ident"
  let ?rest = "pollInfo env ident deadline (now + max 0 (snd ?r) + 100 * Millisecond)"
  show ?case
  proof (cases "errOf (fst ?r) = None \<or> deadline < now + max 0 (snd ?r)")
    case True
    from "1.prems" show ?thesis unfolding pollInfo_stop [OF True] by simp
  next
    case False
    show ?thesis
    proof (cases k)
      case 0
      have "started (?rest ! 0) = now + max 0 (snd ?r) + 100 * Millisecond"
        using pollInfo_hd [of env ident deadline "now + max 0 (snd ?r) + 100 * Millisecond"]
              pollInfo_nonempty [of env ident deadline "now + max 0 (snd ?r) + 100 * Millisecond"]
        by (simp add: hd_conv_nth)
      with 0 False show ?thesis unfolding pollInfo_continue [OF False] by auto
    next
      case (Suc j)
      with "1.prems" have "Suc j < length ?rest" unfolding pollInfo_continue [OF False] by simp
      from "1.IH" [OF refl refl False this] Suc show ?thesis
        unfolding pollInfo_continue [OF False] by simp
    qed
  qed
qed

lemma pollInfo_last:
  "errOf (outcome (last (pollInfo env ident deadline now))) = None
   \<or> deadline < ended (last (pollInfo env ident deadline now))"
proof (induction env ident deadline now rule: pollInfo.induct)
  case (1 env ident deadline now)
  let ?r = "drive_Info env now ident"
  show ?case
  proof (cases "errOf (fst ?r) = None \<or> deadline < now + max 0 (snd ?r)")
    case True
    then show ?thesis unfolding pollInfo_stop [OF True] by simp
  next
    case False
    from "1.IH" [OF refl refl False] show ?thesis
      unfolding pollInfo_continue [OF False] by (simp add: pollInfo_nonempty)
  qed
qed

lemma pollInfo_length:
  "int (length (pollInfo env ident deadline now)) * (100 * Millisecond)
     \<le> (if deadline < now then 100 * Millisecond else deadline - now + 2 * (100 * Millisecond))"
proof (induction env ident deadline now rule: pollInfo.induct)
  case (1 env ident deadline now)
  let ?r = "drive_Info env now ident"
  define d where "d = max 0 (snd ?r)"
  define K where "K = 100 * Millisecond"
  have d0: "0 \<le> d" by (simp add: d_def)
  have K0: "0 < K" by (simp add: K_def Millisecond_def)
  show ?case
  proof (cases "errOf (fst ?r) = None \<or> deadline < now + max 0 (snd ?r)")
    case True
    show ?thesis unfolding pollInfo_stop [OF True] by (auto simp: Millisecond_def)
  next
    case False
    then have le: "now + d \<le> deadline" by (simp add: d_def)
    define L where "L = int (length (pollInfo env ident deadline (now + d + K))) * K"
    have ih: "L \<le> (if deadline < now + d + K then K else deadline - (now + d + K) + 2 * K)"
      unfolding L_def d_def K_def by (rule "1.IH" [OF refl refl False])
    have "pollInfo env ident deadline now =
        \<lparr>started = now, ended = now + d, outcome = fst ?r\<rparr>
        # pollInfo env ident deadline (now + d + K)"
      unfolding d_def K_def by (rule pollInfo_continue [OF False])
    then have tot: "int (length (pollInfo env ident deadline now)) * K = K + L"
      unfolding L_def by (simp add: algebra_simps)
    from ih le d0 K0 have "K + L \<le> (if deadline < now then K else deadline - now + 2 * K)"
      by (auto split: if_splits)
    then have "int (length (pollInfo env ident deadline now)) * K
        \<le> (if deadline < now then K else deadline - now + 2 * K)"
      by (simp only: tot)
    then show ?thesis unfolding K_def .
  qed
qed

lemma pollInfo_at_most_102: "length (pollInfo env ident (t0 + 10 * Second) t0) \<le> 102"
proof -
  have "int (length (pollInfo env ident (t0 + 10 * Second) t0)) * 100000000 \<le> 10200000000"
    using pollInfo_length [of env ident "t0 + 10 * Second" t0]
    by (simp add: Second_def Millisecond_def)
  then show ?thesis by simp
qed


subsection \<open>The handler, branch by branch\<close>

lemma getFilePreview_none:
  "Preview Config = ''none'' \<Longrightarrow>
   getFilePreview env Config r w = (FormatText 500 ''Previews not configured'', w)"
  by (simp add: getFilePreview_def)

lemma getFilePreview_unresolved:
  assumes "Preview Config \<noteq> ''none''"
      and "outcome (resolveInfo env (queryGet r ''id'') (clock w)) = Inl e"
  shows "getFilePreview env Config r w =
           (HttpServeFile (getIconURL (files w) ''unavailable.svg'' ''big''),
            w\<lparr>clock := ended (resolveInfo env (queryGet r ''id'') (clock w))\<rparr>)"
  using assms by (simp add: getFilePreview_def Let_def serveIconPreview_def)

lemma getFilePreview_ceiling:
  assumes "Preview Config \<noteq> ''none''"
      and "outcome (resolveInfo env (queryGet r ''id'') (clock w)) = Inr info"
      and "50 * 1000 * 1000 < Size info \<or> 2000 < dimension (queryGet r ''width'') 214
           \<or> 2000 < dimension (queryGet r ''height'') 163"
  shows "getFilePreview env Config r w =
           (serveIconPreview (files w) (Some info),
            w\<lparr>clock := ended (resolveInfo env (queryGet r ''id'') (clock w))\<rparr>)"
  using assms by (simp add: getFilePreview_def Let_def)

lemma getFilePreview_slice_panic:
  assumes "Preview Config \<noteq> ''none''"
      and "outcome (resolveInfo env (queryGet r ''id'') (clock w)) = Inr info"
      and "\<not> (50 * 1000 * 1000 < Size info \<or> 2000 < dimension (queryGet r ''width'') 214
           \<or> 2000 < dimension (queryGet r ''height'') 163)"
      and "length (queryGet r ''id'') < length (Base (Join [Root Config, queryGet r ''id'']))"
  shows "getFilePreview env Config r w =
           (GoPanic ''slice bounds out of range'',
            w\<lparr>clock := ended (resolveInfo env (queryGet r ''id'') (clock w))\<rparr>)"
  using assms by (simp add: getFilePreview_def Let_def)

lemma getFilePreview_served:
  assumes "Preview Config \<noteq> ''none''"
      and "outcome (resolveInfo env (queryGet r ''id'') (clock w)) = Inr info"
      and "\<not> (50 * 1000 * 1000 < Size info \<or> 2000 < dimension (queryGet r ''width'') 214
           \<or> 2000 < dimension (queryGet r ''height'') 163)"
      and "\<not> length (queryGet r ''id'') < length (Base (Join [Root Config, queryGet r ''id'']))"
  shows "getFilePreview env Config r w =
           servePreview env Config (queryGet r ''id'') info
             (dimension (queryGet r ''width'') 214) (dimension (queryGet r ''height'') 163)
             (queryGet r ''width'') (queryGet r ''height'')
             (Join [Root Config, queryGet r ''id''])
             (Base (Join [Root Config, queryGet r ''id'']))
             (previewFolder Config (queryGet r ''id''))
             (previewPath Config (queryGet r ''id'') (queryGet r ''width'') (queryGet r ''height''))
             (w\<lparr>clock := ended (resolveInfo env (queryGet r ''id'') (clock w))\<rparr>)"
  using assms by (simp add: getFilePreview_def Let_def)

lemma getImagePreview_ext:
  "fst (snd (getImagePreview env source width height preview w)) = None \<Longrightarrow>
   fst (getImagePreview env source width height preview w) = ''.jpg''"
  by (auto simp: getImagePreview_def Let_def split: sum.splits option.splits)

lemma getExternalPreview_ext:
  "getExternalPreview env Config file preview name width height w = Returns ext None w' \<Longrightarrow>
   ext = ''.jpg'' \<or> ext = ''.png''"
  by (auto simp: getExternalPreview_def Let_def split: sum.splits option.splits if_splits)

lemma getExternalPreview_dies:
  "getExternalPreview env Config file preview name width height w = Dies w' \<Longrightarrow>
   file = None \<and> http_NewRequest env (Preview Config) = None
   \<and> w' = w\<lparr>trace := trace w @ [ExternalGenerator preview name width height]\<rparr>"
  by (auto simp: getExternalPreview_def Let_def split: sum.splits option.splits if_splits)

lemma getExternalPreview_open:
  "\<exists>ext e w'. getExternalPreview env Config (Some b) preview name width height w = Returns ext e w'"
  by (auto simp: getExternalPreview_def Let_def split: sum.splits option.splits if_splits)

lemma generatePreview_response:
  "(\<exists>fs. fst (generatePreview env Config ident info width height widthStr heightStr
              source name folder preview err w) = serveIconPreview fs (Some info))
   \<or> fst (generatePreview env Config ident info width height widthStr heightStr
              source name folder preview err w) = HttpServeFile (preview @ ''.jpg'')
   \<or> fst (generatePreview env Config ident info width height widthStr heightStr
              source name folder preview err w) = HttpServeFile (preview @ ''.png'')
   \<or> fst (generatePreview env Config ident info width height widthStr heightStr
              source name folder preview err w) = ProcessDies
      \<and> Preview Config \<noteq> [] \<and> (\<exists>e. drive_Read env ident = Inl e)"
proof -
  define w1 where "w1 = w\<lparr>files := ignoreErr (files w) (os_Mkdir (files w) folder)\<rparr>"
  define rd where "rd = (case drive_Read env ident of Inl _ \<Rightarrow> None | Inr b \<Rightarrow> Some b)"
  define l where "l = getImagePreview env source width height preview w1"
  define g where "g = (if Preview Config \<noteq> [] then
                 getExternalPreview env Config rd preview name widthStr heightStr w1
               else if Type info = ''image'' then Returns (fst l) (fst (snd l)) (snd (snd l))
               else Returns ''.png'' (Some err) w1)"
  have gp: "generatePreview env Config ident info width height widthStr heightStr
              source name folder preview err w =
      (case g of
           Dies wd \<Rightarrow> (ProcessDies, wd)
         | Returns ext (Some e) wg \<Rightarrow>
             (let w2 = wg\<lparr>trace := trace wg @ [LogPrint e]\<rparr>;
                  w3 = w2\<lparr>files := ignoreErr (files w2) (os_WriteFile (files w2) (preview @ ''.jpg'') [])\<rparr>
              in (serveIconPreview (files w3) (Some info), w3))
         | Returns ext None wg \<Rightarrow> (HttpServeFile (preview @ ext), wg))"
    unfolding generatePreview_def Let_def g_def w1_def rd_def l_def by (rule refl)
  show ?thesis
  proof (cases g)
    case (Dies wd)
    then have p: "Preview Config \<noteq> []" by (auto simp: g_def split: if_splits)
    with Dies have "getExternalPreview env Config rd preview name widthStr heightStr w1 = Dies wd"
      by (simp add: g_def)
    from getExternalPreview_dies [OF this] have "rd = None" by simp
    then have "\<exists>e. drive_Read env ident = Inl e"
      by (cases "drive_Read env ident") (simp_all add: rd_def)
    with p Dies show ?thesis unfolding gp by simp
  next
    case (Returns ext eo wg)
    show ?thesis
    proof (cases eo)
      case (Some e)
      with Returns show ?thesis unfolding gp by (auto simp: Let_def)
    next
      case None
      have "ext = ''.jpg'' \<or> ext = ''.png''"
      proof (cases "Preview Config \<noteq> []")
        case True
        with Returns None
        have "getExternalPreview env Config rd preview name widthStr heightStr w1 = Returns ext None wg"
          by (simp add: g_def)
        then show ?thesis by (rule getExternalPreview_ext)
      next
        case False
        with Returns None have "Type info = ''image''" "fst (snd l) = None" "fst l = ext"
          by (auto simp: g_def split: if_splits)
        with getImagePreview_ext [of env source width height preview w1]
        show ?thesis by (simp add: l_def)
      qed
      with Returns None show ?thesis unfolding gp by auto
    qed
  qed
qed

lemma servePreview_response:
  "(\<exists>fs. fst (servePreview env Config ident info width height widthStr heightStr
              source name folder preview w) = serveIconPreview fs (Some info))
   \<or> fst (servePreview env Config ident info width height widthStr heightStr
              source name folder preview w) = HttpServeFile (preview @ ''.jpg'')
   \<or> fst (servePreview env Config ident info width height widthStr heightStr
              source name folder preview w) = HttpServeFile (preview @ ''.png'')
   \<or> fst (servePreview env Config ident info width height widthStr heightStr
              source name folder preview w) = ProcessDies
      \<and> Preview Config \<noteq> [] \<and> (\<exists>e. drive_Read env ident = Inl e)"
proof (cases "os_Stat (files w) (preview @ ''.jpg'')")
  case (Inr sz)
  then show ?thesis by (auto simp: servePreview_def)
next
  case jpg: (Inl e1)
  show ?thesis
  proof (cases "os_Stat (files w) (preview @ ''.png'')")
    case (Inr sz)
    with jpg show ?thesis by (auto simp: servePreview_def)
  next
    case png: (Inl e2)
    have sp: "servePreview env Config ident info width height widthStr heightStr
                source name folder preview w
        = generatePreview env Config ident info width height widthStr heightStr
                source name folder preview e2 w"
      using jpg png by (simp add: servePreview_def)
    show ?thesis unfolding sp by (rule generatePreview_response)
  qed
qed

subsection \<open>The fallback icon and the responses of the handler\<close>

lemma serveIconPreview_no_ext:
  "Ext (Name info) = [] \<Longrightarrow>
   serveIconPreview fs (Some info) = GoPanic ''slice bounds out of range [1:0]''"
  by (simp add: serveIconPreview_def)

lemma serveIconPreview_ext:
  "Ext (Name info) \<noteq> [] \<Longrightarrow>
   serveIconPreview fs (Some info) =
     HttpServeFile (getIconURL fs (tl (Ext (Name info)) @ ''.svg'') ''big'')"
  by (cases "Ext (Name info)") (simp_all add: serveIconPreview_def)


lemma getFilePreview_response:
  assumes "Preview Config \<noteq> ''none''"
      and "outcome (resolveInfo env (queryGet r ''id'') (clock w)) = Inr info"
  shows "(\<exists>fs. fst (getFilePreview env Config r w) = serveIconPreview fs (Some info))
       \<or> fst (getFilePreview env Config r w) =
            HttpServeFile (previewPath Config (queryGet r ''id'') (queryGet r ''width'')
                             (queryGet r ''height'') @ ''.jpg'')
       \<or> fst (getFilePreview env Config r w) =
            HttpServeFile (previewPath Config (queryGet r ''id'') (queryGet r ''width'')
                             (queryGet r ''height'') @ ''.png'')
       \<or> fst (getFilePreview env Config r w) = GoPanic ''slice bounds out of range''
       \<or> fst (getFilePreview env Config r w) = ProcessDies
          \<and> Preview Config \<noteq> [] \<and> (\<exists>e. drive_Read env (queryGet r ''id'') = Inl e)"
proof (cases "50 * 1000 * 1000 < Size info \<or> 2000 < dimension (queryGet r ''width'') 214
           \<or> 2000 < dimension (queryGet r ''height'') 163")
  case True
  from getFilePreview_ceiling [OF assms True] show ?thesis by auto
next
  case False
  show ?thesis
  proof (cases "length (queryGet r ''id'') < length (Base (Join [Root Config, queryGet r ''id'']))")
    case True
    from getFilePreview_slice_panic [OF assms False True] show ?thesis by simp
  next
    case noslice: False
    from servePreview_response [of env Config "queryGet r ''id''" info
              "dimension (queryGet r ''width'') 214" "dimension (queryGet r ''height'') 163"
              "queryGet r ''width''" "queryGet r ''height''"
              "Join [Root Config, queryGet r ''id'']" "Base (Join [Root Config, queryGet r ''id''])"
              "previewFolder Config (queryGet r ''id'')"
              "previewPath Config (queryGet r ''id'') (queryGet r ''width'') (queryGet r ''height'')"
              "w\<lparr>clock := ended (resolveInfo env (queryGet r ''id'') (clock w))\<rparr>"]
    show ?thesis
      unfolding getFilePreview_served [OF assms False noslice] by blast
  qed
qed

lemma queryGet_request [simp]:
  "queryGet (request ident ws hs) ''id'' = ident"
  "queryGet (request ident ws hs) ''width'' = ws"
  "queryGet (request ident ws hs) ''height'' = hs"
  by (simp_all add: request_def queryGet_def)

lemma queryGet_requestNoWidth [simp]:
  "queryGet (requestNoWidth ident hs) ''id'' = ident"
  "queryGet (requestNoWidth ident hs) ''width'' = []"
  "queryGet (requestNoWidth ident hs) ''height'' = hs"
  by (simp_all add: requestNoWidth_def queryGet_def)



lemma servePreview_placeholder:
  "os_Stat (files w) (preview @ ''.jpg'') = Inr 0 \<Longrightarrow>
   servePreview env Config ident info width height widthStr heightStr source name folder preview w
     = (serveIconPreview (files w) (Some info), w)"
  by (simp add: servePreview_def)

subsection \<open>Cleaned paths keep a plain suffix\<close>

lemma splitOn_nonempty: "splitOn c xs \<noteq> []"
  by (induction xs) (auto split: list.splits)

lemma splitOn_snoc:
  "c \<notin> set s \<Longrightarrow>
   splitOn c (y @ s) = butlast (splitOn c y) @ [last (splitOn c y) @ s]"
proof (induction y)
  case Nil
  then show ?case by (simp add: splitOn_notin)
next
  case (Cons x xs)
  obtain l ls where L: "splitOn c xs = l # ls"
    using splitOn_nonempty [of c xs] by (cases "splitOn c xs") auto
  from Cons L show ?case
    by (cases ls) (auto simp: splitOn_nonempty)
qed

lemma joinWith_snoc:
  "joinWith sep (xs @ [e]) = (if xs = [] then e else joinWith sep xs @ sep @ e)"
  by (induction sep xs rule: joinWith.induct) auto

lemma joinWith_suffix: "\<exists>z. joinWith sep (st @ [e0 @ s]) = z @ s"
proof (cases "st = []")
  case True
  then have "joinWith sep (st @ [e0 @ s]) = e0 @ s" by simp
  then show ?thesis ..
next
  case False
  then have "joinWith sep (st @ [e0 @ s]) = (joinWith sep st @ sep @ e0) @ s"
    by (simp add: joinWith_snoc)
  then show ?thesis ..
qed

lemma Clean_suffix:
  assumes "CHR ''/'' \<notin> set s" and "c \<in> set s" and "c \<noteq> CHR ''.''"
  shows "\<exists>z. Clean (y @ s) = z @ s"
proof -
  define e0 where "e0 = last (splitOn (CHR ''/'') y)"
  define st where "st = foldl (cleanStep (isRooted (y @ s))) [] (butlast (splitOn (CHR ''/'') y))"
  from assms(2) have cin: "c \<in> set (e0 @ s)" by simp
  have n1: "e0 @ s \<noteq> []" using cin by auto
  have n2: "e0 @ s \<noteq> ''.''"
  proof
    assume h: "e0 @ s = ''.''"
    from cin assms(3) show False unfolding h by simp
  qed
  have n3: "e0 @ s \<noteq> ''..''"
  proof
    assume h: "e0 @ s = ''..''"
    from cin assms(3) show False unfolding h by simp
  qed
  have "cleanElems (y @ s) = rev (cleanStep (isRooted (y @ s)) st (e0 @ s))"
    by (simp add: cleanElems_def splitOn_snoc [OF assms(1)] e0_def st_def)
  also have "cleanStep (isRooted (y @ s)) st (e0 @ s) = (e0 @ s) # st"
    using n1 n2 n3 by simp
  finally have elems: "cleanElems (y @ s) = rev st @ [e0 @ s]" by simp
  obtain z where z: "joinWith ''/'' (cleanElems (y @ s)) = z @ s"
    unfolding elems using joinWith_suffix by blast
  have ne: "cleanElems (y @ s) \<noteq> []" unfolding elems by simp
  show ?thesis
  proof (cases "isRooted (y @ s)")
    case True
    then have "Clean (y @ s) = (CHR ''/'' # z) @ s" by (simp add: Clean_def z)
    then show ?thesis ..
  next
    case False
    with ne have "Clean (y @ s) = z @ s" by (simp add: Clean_def z)
    then show ?thesis ..
  qed
qed

lemma Clean_jpg_png: "Clean (p @ ''.png'') \<noteq> Clean (p @ ''.jpg'')"
proof
  assume eq: "Clean (p @ ''.png'') = Clean (p @ ''.jpg'')"
  obtain z1 where z1: "Clean (p @ ''.png'') = z1 @ ''.png''"
    using Clean_suffix [of "''.png''" "CHR ''p''" p] by auto
  obtain z2 where z2: "Clean (p @ ''.jpg'') = z2 @ ''.jpg''"
    using Clean_suffix [of "''.jpg''" "CHR ''j''" p] by auto
  from eq have "rev (z1 @ ''.png'') ! 1 = rev (z2 @ ''.jpg'') ! 1"
    unfolding z1 z2 by (rule arg_cong)
  then show False by simp
qed
lemma Join3_suffix: "e \<noteq> [] \<Longrightarrow> \<exists>y. Join [a, b, e] = Clean (y @ e)"
proof (cases "a = []")
  case True
  assume e: "e \<noteq> []"
  show ?thesis
  proof (cases "b = []")
    case True
    with \<open>a = []\<close> e have "dropWhile (\<lambda>x. x = []) [a, b, e] = [e]" by simp
    then have "Join [a, b, e] = Clean ([] @ e)" by (simp add: Join_def)
    then show ?thesis ..
  next
    case False
    with \<open>a = []\<close> have "dropWhile (\<lambda>x. x = []) [a, b, e] = [b, e]" by simp
    then have "Join [a, b, e] = Clean ((b @ ''/'') @ e)" by (simp add: Join_def)
    then show ?thesis ..
  qed
next
  case False
  then have "dropWhile (\<lambda>x. x = []) [a, b, e] = [a, b, e]" by simp
  then have "Join [a, b, e] = Clean ((a @ ''/'' @ b @ ''/'') @ e)" by (simp add: Join_def)
  then show ?thesis ..
qed

lemma Clean_preview_suffix: "\<exists>z. Clean (y @ ''.preview'') = z @ ''.preview''"
  by (rule Clean_suffix [of _ "CHR ''p''"]) simp_all

lemma previewFolder_suffix: "\<exists>z. Clean (previewFolder Config ident) = z @ ''.preview''"
proof -
  let ?pre = "take (length ident - length (Base (Join [Root Config, ident]))) ident"
  have ne: "''.preview'' \<noteq> []" by simp
  from Join3_suffix [OF ne, of "Root Config" ?pre]
  obtain y where "Join [Root Config, ?pre, ''.preview''] = Clean (y @ ''.preview'')" ..
  then have y: "previewFolder Config ident = Clean (y @ ''.preview'')"
    by (simp only: previewFolder_def Let_def)
  from Clean_preview_suffix [of y]
  obtain z where z: "Clean (y @ ''.preview'') = z @ ''.preview''" ..
  show ?thesis unfolding y z by (rule Clean_preview_suffix)
qed
lemma Clean_jpg_suffix: "\<exists>z. Clean (p @ ''.jpg'') = z @ ''.jpg''"
  by (rule Clean_suffix [of _ "CHR ''j''"]) simp_all

lemma Clean_folder_jpg: "Clean (previewFolder Config ident) \<noteq> Clean (p @ ''.jpg'')"
proof
  assume eq: "Clean (previewFolder Config ident) = Clean (p @ ''.jpg'')"
  from previewFolder_suffix [of Config ident]
  obtain z where z: "Clean (previewFolder Config ident) = z @ ''.preview''" ..
  from Clean_jpg_suffix [of p]
  obtain z2 where z2: "Clean (p @ ''.jpg'') = z2 @ ''.jpg''" ..
  from eq have "last (z @ ''.preview'') = last (z2 @ ''.jpg'')"
    unfolding z z2 by (rule arg_cong)
  then show False by simp
qed

subsection \<open>What a successful generation leaves behind\<close>

lemma ignoreErr_Mkdir_other:
  "k \<noteq> Clean folder \<Longrightarrow> ignoreErr fs (os_Mkdir fs folder) k = fs k"
  by (simp add: os_Mkdir_def ignoreErr_def)

lemma getImagePreview_trace:
  "trace (snd (snd (getImagePreview env source width height preview w)))
     = trace w @ [LocalGenerator source width height preview]"
  by (simp add: getImagePreview_def Let_def split: sum.splits option.splits)

lemma getImagePreview_success:
  assumes "fst (snd (getImagePreview env source width height preview w)) = None"
  shows "fst (getImagePreview env source width height preview w) = ''.jpg''
       \<and> (\<exists>b. files (snd (snd (getImagePreview env source width height preview w)))
                = (files w)(Clean (preview @ ''.jpg'') \<mapsto> RegFile b))"
  using assms
  by (auto simp: getImagePreview_def imaging_Save_def os_Create_def os_WriteFile_def Let_def
           split: sum.splits option.splits if_splits)

lemma getExternalPreview_trace:
  "getExternalPreview env Config file preview name width height w = Returns ext e w' \<Longrightarrow>
   trace w' = trace w @ [ExternalGenerator preview name width height]"
  by (auto simp: getExternalPreview_def os_Create_def os_WriteFile_def Let_def
           split: sum.splits option.splits if_splits)

lemma getExternalPreview_success:
  assumes "getExternalPreview env Config file preview name width height w = Returns ext None w'"
  shows "(ext = ''.jpg'' \<or> ext = ''.png'')
       \<and> (\<exists>b. files w' = (files w)(Clean (preview @ ext) \<mapsto> RegFile b))"
  using assms
  by (auto simp: getExternalPreview_def os_Create_def os_WriteFile_def Let_def
           split: sum.splits option.splits if_splits)

lemma generatePreview_generated:
  assumes "trace (snd (generatePreview env Config ident info width height widthStr heightStr
                        source name folder preview err w)) = trace w @ [g]"
      and "isGenerator g"
      and "fst (generatePreview env Config ident info width height widthStr heightStr
                        source name folder preview err w) \<noteq> ProcessDies"
  shows "\<exists>ext b. (ext = ''.jpg'' \<or> ext = ''.png'')
       \<and> fst (generatePreview env Config ident info width height widthStr heightStr
                 source name folder preview err w) = HttpServeFile (preview @ ext)
       \<and> files (snd (generatePreview env Config ident info width height widthStr heightStr
                 source name folder preview err w))
            = (ignoreErr (files w) (os_Mkdir (files w) folder))(Clean (preview @ ext) \<mapsto> RegFile b)"
proof -
  define w1 where "w1 = w\<lparr>files := ignoreErr (files w) (os_Mkdir (files w) folder)\<rparr>"
  define rd where "rd = (case drive_Read env ident of Inl _ \<Rightarrow> None | Inr b \<Rightarrow> Some b)"
  define l where "l = getImagePreview env source width height preview w1"
  define gt where "gt = (if Preview Config \<noteq> [] then
                 getExternalPreview env Config rd preview name widthStr heightStr w1
               else if Type info = ''image'' then Returns (fst l) (fst (snd l)) (snd (snd l))
               else Returns ''.png'' (Some err) w1)"
  have w1: "trace w1 = trace w" "files w1 = ignoreErr (files w) (os_Mkdir (files w) folder)"
    by (simp_all add: w1_def)
  have gp: "generatePreview env Config ident info width height widthStr heightStr
              source name folder preview err w =
      (case gt of
           Dies wd \<Rightarrow> (ProcessDies, wd)
         | Returns ext (Some e) wg \<Rightarrow>
             (let w2 = wg\<lparr>trace := trace wg @ [LogPrint e]\<rparr>;
                  w3 = w2\<lparr>files := ignoreErr (files w2) (os_WriteFile (files w2) (preview @ ''.jpg'') [])\<rparr>
              in (serveIconPreview (files w3) (Some info), w3))
         | Returns ext None wg \<Rightarrow> (HttpServeFile (preview @ ext), wg))"
    unfolding generatePreview_def Let_def gt_def w1_def rd_def l_def by (rule refl)
  show ?thesis
  proof (cases gt)
    case (Dies wd)
    with assms(3) show ?thesis unfolding gp by simp
  next
    case (Returns ext eo wg)
    have tr: "trace wg = trace w \<or> (\<exists>g'. trace wg = trace w @ [g'])"
    proof (cases "Preview Config \<noteq> []")
      case True
      with Returns
      have "getExternalPreview env Config rd preview name widthStr heightStr w1 = Returns ext eo wg"
        by (simp add: gt_def)
      from getExternalPreview_trace [OF this] show ?thesis by (simp add: w1)
    next
      case False
      show ?thesis
      proof (cases "Type info = ''image''")
        case True
        with False Returns have "wg = snd (snd l)" by (simp add: gt_def)
        then show ?thesis by (simp add: l_def getImagePreview_trace w1)
      next
        case noimg: False
        with False Returns have "wg = w1" by (simp add: gt_def)
        then show ?thesis by (simp add: w1)
      qed
    qed
    show ?thesis
    proof (cases eo)
      case (Some e)
      with Returns have "trace (snd (generatePreview env Config ident info width height widthStr
                              heightStr source name folder preview err w)) = trace wg @ [LogPrint e]"
        unfolding gp by (simp add: Let_def)
      with assms(1) have "trace wg @ [LogPrint e] = trace w @ [g]" by simp
      with tr assms(2) show ?thesis by auto
    next
      case None
      have "(ext = ''.jpg'' \<or> ext = ''.png'')
            \<and> (\<exists>b. files wg = (files w1)(Clean (preview @ ext) \<mapsto> RegFile b))"
      proof (cases "Preview Config \<noteq> []")
        case True
        with Returns None
        have "getExternalPreview env Config rd preview name widthStr heightStr w1 = Returns ext None wg"
          by (simp add: gt_def)
        then show ?thesis by (rule getExternalPreview_success)
      next
        case False
        with Returns None have "Type info = ''image''" "fst (snd l) = None" "fst l = ext"
            "snd (snd l) = wg"
          by (auto simp: gt_def split: if_splits)
        with getImagePreview_success [of env source width height preview w1]
        show ?thesis by (auto simp: l_def)
      qed
      then obtain b where "ext = ''.jpg'' \<or> ext = ''.png''"
          "files wg = (files w1)(Clean (preview @ ext) \<mapsto> RegFile b)"
        by blast
      with Returns None show ?thesis unfolding gp w1(2) by auto
    qed
  qed
qed

lemma servePreview_generated:
  assumes "trace (snd (servePreview env Config ident info width height widthStr heightStr
                        source name folder preview w)) = trace w @ [g]"
      and "isGenerator g"
      and "fst (servePreview env Config ident info width height widthStr heightStr
                        source name folder preview w) \<noteq> ProcessDies"
  shows "(\<exists>e. os_Stat (files w) (preview @ ''.jpg'') = Inl e)
       \<and> (\<exists>e. os_Stat (files w) (preview @ ''.png'') = Inl e)
       \<and> (\<exists>ext b. (ext = ''.jpg'' \<or> ext = ''.png'')
            \<and> fst (servePreview env Config ident info width height widthStr heightStr
                      source name folder preview w) = HttpServeFile (preview @ ext)
            \<and> files (snd (servePreview env Config ident info width height widthStr heightStr
                      source name folder preview w))
                 = (ignoreErr (files w) (os_Mkdir (files w) folder))(Clean (preview @ ext) \<mapsto> RegFile b))"
proof (cases "os_Stat (files w) (preview @ ''.jpg'')")
  case (Inr sz)
  with assms(1) show ?thesis by (simp add: servePreview_def split: if_splits)
next
  case jpg: (Inl e1)
  show ?thesis
  proof (cases "os_Stat (files w) (preview @ ''.png'')")
    case (Inr sz)
    with jpg assms(1) show ?thesis by (simp add: servePreview_def split: if_splits)
  next
    case png: (Inl e2)
    have sp: "servePreview env Config ident info width height widthStr heightStr
                source name folder preview w
        = generatePreview env Config ident info width height widthStr heightStr
                source name folder preview e2 w"
      using jpg png by (simp add: servePreview_def)
    from generatePreview_generated [OF assms(1) [unfolded sp] assms(2) assms(3) [unfolded sp]] jpg png
    show ?thesis unfolding sp by simp
  qed
qed

lemma os_Stat_cong: "fs (Clean p) = fs' (Clean p) \<Longrightarrow> os_Stat fs p = os_Stat fs' p"
  by (simp add: os_Stat_def)

lemma os_Stat_RegFile:
  "p \<noteq> [] \<Longrightarrow> fs (Clean p) = Some (RegFile b) \<Longrightarrow> os_Stat fs p = Inr (int (length b))"
  by (simp add: os_Stat_def)

lemma getFilePreview_generated:
  assumes "trace (snd (getFilePreview env Config r w)) = trace w @ [g]"
      and "isGenerator g"
      and "fst (getFilePreview env Config r w) \<noteq> ProcessDies"
  shows "Preview Config \<noteq> ''none''
       \<and> \<not> 2000 < dimension (queryGet r ''width'') 214
       \<and> \<not> 2000 < dimension (queryGet r ''height'') 163
       \<and> \<not> length (queryGet r ''id'') < length (Base (Join [Root Config, queryGet r ''id'']))
       \<and> (\<exists>e. os_Stat (files w)
                 (previewPath Config (queryGet r ''id'') (queryGet r ''width'') (queryGet r ''height'')
                    @ ''.jpg'') = Inl e)
       \<and> (\<exists>ext b. (ext = ''.jpg'' \<or> ext = ''.png'')
            \<and> fst (getFilePreview env Config r w) =
                 HttpServeFile (previewPath Config (queryGet r ''id'') (queryGet r ''width'')
                                  (queryGet r ''height'') @ ext)
            \<and> files (snd (getFilePreview env Config r w)) =
                 (ignoreErr (files w) (os_Mkdir (files w) (previewFolder Config (queryGet r ''id''))))
                   (Clean (previewPath Config (queryGet r ''id'') (queryGet r ''width'')
                             (queryGet r ''height'') @ ext) \<mapsto> RegFile b))"
proof -
  let ?a = "resolveInfo env (queryGet r ''id'') (clock w)"
  let ?w1 = "w\<lparr>clock := ended ?a\<rparr>"
  have none: "Preview Config \<noteq> ''none''"
  proof
    assume "Preview Config = ''none''"
    from getFilePreview_none [OF this, of env r w] assms(1) show False by simp
  qed
  obtain info where info: "outcome ?a = Inr info"
  proof (cases "outcome ?a")
    case (Inl e)
    from getFilePreview_unresolved [OF none Inl] assms(1) show ?thesis by simp
  next
    case (Inr i)
    then show ?thesis by (rule that)
  qed
  have ceil: "\<not> (50 * 1000 * 1000 < Size info \<or> 2000 < dimension (queryGet r ''width'') 214
           \<or> 2000 < dimension (queryGet r ''height'') 163)"
  proof
    assume c: "50 * 1000 * 1000 < Size info \<or> 2000 < dimension (queryGet r ''width'') 214
           \<or> 2000 < dimension (queryGet r ''height'') 163"
    from getFilePreview_ceiling [OF none info c] assms(1) show False by simp
  qed
  have slice: "\<not> length (queryGet r ''id'') < length (Base (Join [Root Config, queryGet r ''id'']))"
  proof
    assume s: "length (queryGet r ''id'') < length (Base (Join [Root Config, queryGet r ''id'']))"
    from getFilePreview_slice_panic [OF none info ceil s] assms(1) show False by simp
  qed
  note served = getFilePreview_served [OF none info ceil slice]
  have tr: "trace (snd (getFilePreview env Config r w)) = trace ?w1 @ [g]"
    using assms(1) by simp
  from servePreview_generated [OF tr [unfolded served] assms(2) assms(3) [unfolded served]]
  have "(\<exists>e. os_Stat (files ?w1)
                 (previewPath Config (queryGet r ''id'') (queryGet r ''width'') (queryGet r ''height'')
                    @ ''.jpg'') = Inl e)
       \<and> (\<exists>ext b. (ext = ''.jpg'' \<or> ext = ''.png'')
            \<and> fst (getFilePreview env Config r w) =
                 HttpServeFile (previewPath Config (queryGet r ''id'') (queryGet r ''width'')
                                  (queryGet r ''height'') @ ext)
            \<and> files (snd (getFilePreview env Config r w)) =
                 (ignoreErr (files ?w1) (os_Mkdir (files ?w1) (previewFolder Config (queryGet r ''id''))))
                   (Clean (previewPath Config (queryGet r ''id'') (queryGet r ''width'')
                             (queryGet r ''height'') @ ext) \<mapsto> RegFile b))"
    unfolding served by blast
  then have rest: "(\<exists>e. os_Stat (files w)
                 (previewPath Config (queryGet r ''id'') (queryGet r ''width'') (queryGet r ''height'')
                    @ ''.jpg'') = Inl e)
       \<and> (\<exists>ext b. (ext = ''.jpg'' \<or> ext = ''.png'')
            \<and> fst (getFilePreview env Config r w) =
                 HttpServeFile (previewPath Config (queryGet r ''id'') (queryGet r ''width'')
                                  (queryGet r ''height'') @ ext)
            \<and> files (snd (getFilePreview env Config r w)) =
                 (ignoreErr (files w) (os_Mkdir (files w) (previewFolder Config (queryGet r ''id''))))
                   (Clean (previewPath Config (queryGet r ''id'') (queryGet r ''width'')
                             (queryGet r ''height'') @ ext) \<mapsto> RegFile b))"
    by simp
  from ceil have "\<not> 2000 < dimension (queryGet r ''width'') 214"
     "\<not> 2000 < dimension (queryGet r ''height'') 163" by simp_all
  with none slice rest [THEN conjunct1] rest [THEN conjunct2] show ?thesis by (intro conjI)
qed

subsection \<open>The cache path keeps the raw width\<close>








subsection \<open>The nil reader\<close>

lemma getExternalPreview_nil_reader:
  assumes "http_NewRequest env (Preview Config) = None"
      and "body_consumed env (Preview Config)
             \<lparr>form_width = width, form_height = height, form_name = name, form_file = None\<rparr>"
  shows "getExternalPreview env Config None preview name width height w
           = Dies (w\<lparr>trace := trace w @ [ExternalGenerator preview name width height]\<rparr>)"
  using assms by (simp add: getExternalPreview_def)

lemma getFilePreview_nil_reader:
  "fst (getFilePreview unreadableEnv remoteConfig (request ''docs/report.txt'' ''100'' ''100'')
          sampleWorld) = ProcessDies"
  by code_simp

subsection \<open>Sizes outside the icons directory\<close>

lemma cleanElems_parent:
  assumes "CHR ''/'' \<notin> set t"
  shows "cleanElems (''icons/../'' @ t) =
           (if t = [] \<or> t = ''.'' then [] else [t])"
proof -
  have s: "splitOn (CHR ''/'') (''icons/../'' @ t) = [''icons'', ''..'', t]"
    using assms by (simp add: splitOn_notin)
  show ?thesis
    unfolding cleanElems_def s by (simp add: isRooted_def)
qed

lemma not_withinIcons_parent:
  assumes "CHR ''/'' \<notin> set t" "t \<noteq> ''icons''"
  shows "\<not> withinIcons (''icons/../'' @ t)"
  unfolding withinIcons_def cleanElems_parent [OF assms(1)] using assms(2) by simp

section \<open>The claims\<close>

text \<open>
  C6. The icon resolver strips from the name every character outside
  \<^verbatim>\<open>[A-Za-z0-9.]\<close>; it returns the generic \<^verbatim>\<open>icons/<size>/file.svg\<close> exactly when the
  sanitized lookup path does not exist and the lookup path otherwise; for a size
  bucket that is one plain path element the result lies in the icons directory. The
  lookup of \<^verbatim>\<open>../../etc/passwd\<close> sanitizes to \<^verbatim>\<open>....etcpasswd\<close> and, that icon being
  absent, resolves to the generic icon. The function is total: it has no error result.
\<close>

theorem getIconURL_sanitizes_name:
  assumes "plainElement sz"
  shows "sanitize name = filter (\<lambda>c. c \<in> set iconChars) name
       \<and> getIconURL fs name sz =
           (if os_Stat fs (''icons/'' @ sz @ ''/'' @ sanitize name) = Inl ErrNotExist
            then ''icons/'' @ sz @ ''/file.svg''
            else ''icons/'' @ sz @ ''/'' @ sanitize name)
       \<and> withinIcons (getIconURL fs name sz)
       \<and> sanitize ''../../etc/passwd'' = ''....etcpasswd''
       \<and> (os_Stat fs ''icons/big/....etcpasswd'' = Inl ErrNotExist
            \<longrightarrow> getIconURL fs ''../../etc/passwd'' ''big'' = ''icons/big/file.svg'')"
proof -
  have a: "sanitize name = filter (\<lambda>c. c \<in> set iconChars) name"
  proof -
    have "isIconChar = (\<lambda>c. c \<in> set iconChars)"
      by (rule ext) (rule isIconChar_iff)
    then show ?thesis by (simp add: sanitize_def)
  qed
  have b: "withinIcons (getIconURL fs name sz)"
  proof -
    have "withinIcons (''icons/'' @ sz @ ''/'' @ sanitize name)"
      by (rule withinIcons_icons [OF assms sanitize_no_slash])
    moreover have "withinIcons (''icons/'' @ sz @ ''/'' @ ''file.svg'')"
      by (rule withinIcons_icons [OF assms]) simp
    ultimately show ?thesis by (simp add: getIconURL_cases)
  qed
  have c: "sanitize ''../../etc/passwd'' = ''....etcpasswd''"
    by (simp add: sanitize_def isIconChar_def)
  have d: "os_Stat fs ''icons/big/....etcpasswd'' = Inl ErrNotExist
            \<longrightarrow> getIconURL fs ''../../etc/passwd'' ''big'' = ''icons/big/file.svg''"
    by (simp add: getIconURL_cases c)
  from a b c d show ?thesis by (simp add: getIconURL_cases)
qed

theorem getIconURL_sanitizes_name_witness:
  "plainElement ''big''
   \<and> os_Stat sampleFiles ''icons/big/....etcpasswd'' = Inl ErrNotExist
   \<and> getIconURL sampleFiles ''../../etc/passwd'' ''big'' = ''icons/big/file.svg''
   \<and> withinIcons (getIconURL sampleFiles ''../../etc/passwd'' ''big'')
   \<and> getIconURL sampleFiles ''jpg.svg'' ''big'' = ''icons/big/jpg.svg''"
proof -
  have h: "plainElement ''big''" by (simp add: plainElement_def)
  have s: "os_Stat sampleFiles ''icons/big/....etcpasswd'' = Inl ErrNotExist" by code_simp
  have j: "getIconURL sampleFiles ''jpg.svg'' ''big'' = ''icons/big/jpg.svg''" by code_simp
  note t = getIconURL_sanitizes_name [OF h, of "''../../etc/passwd''" sampleFiles]
  from t have w: "withinIcons (getIconURL sampleFiles ''../../etc/passwd'' ''big'')"
    by (elim conjE)
  from t have i: "os_Stat sampleFiles ''icons/big/....etcpasswd'' = Inl ErrNotExist
      \<longrightarrow> getIconURL sampleFiles ''../../etc/passwd'' ''big'' = ''icons/big/file.svg''"
    by (elim conjE)
  from i s have g: "getIconURL sampleFiles ''../../etc/passwd'' ''big'' = ''icons/big/file.svg''"
    by (rule mp)
  show ?thesis by (intro conjI h s g w j)
qed

text \<open>
  C10. Only the name is sanitized: the returned path is \<^verbatim>\<open>icons/\<close>, the size as given,
  a separator and the sanitized name, or \<^verbatim>\<open>icons/\<close>, the size as given and
  \<^verbatim>\<open>/file.svg\<close>, and the handler of the icons route serves that path. With the size
  \<^verbatim>\<open>../..\<close> the returned path lies outside the icons directory, whatever the name
  and the file system; with the size \<^verbatim>\<open>..\<close>, one path element, it does so for every
  name that does not sanitize to \<^verbatim>\<open>icons\<close>.
\<close>

theorem getIconURL_size_verbatim:
  "(getIconURL fs name sz = ''icons/'' @ sz @ ''/'' @ sanitize name
      \<or> getIconURL fs name sz = ''icons/'' @ sz @ ''/file.svg'')
   \<and> iconsHandler fs name sz = HttpServeFile (getIconURL fs name sz)
   \<and> \<not> withinIcons (getIconURL fs name ''../..'')
   \<and> (sanitize name \<noteq> ''icons'' \<longrightarrow> \<not> withinIcons (getIconURL fs name ''..''))"
proof -
  have a: "\<not> withinIcons (''icons/../../'' @ sanitize name)"
    by (rule not_withinIcons_escape [OF sanitize_no_slash])
  have b: "\<not> withinIcons (''icons/../../'' @ ''file.svg'')"
    by (rule not_withinIcons_escape) simp
  have c: "\<not> withinIcons (''icons/../'' @ ''file.svg'')"
    by (rule not_withinIcons_parent) simp_all
  have d: "sanitize name \<noteq> ''icons'' \<longrightarrow> \<not> withinIcons (''icons/../'' @ sanitize name)"
    using not_withinIcons_parent [OF sanitize_no_slash] by blast
  from a b c d show ?thesis by (simp add: getIconURL_cases iconsHandler_def)
qed

theorem getIconURL_size_verbatim_witness:
  "getIconURL sampleFiles ''passwd'' ''../../etc'' = ''icons/../../etc/file.svg''
   \<and> Clean (getIconURL sampleFiles ''passwd'' ''../../etc'') = ''../etc/file.svg''
   \<and> withinIcons (getIconURL sampleFiles ''passwd'' ''../..'') = False
   \<and> sanitize ''passwd'' \<noteq> ''icons''
   \<and> getIconURL sampleFiles ''passwd'' ''..'' = ''icons/../file.svg''
   \<and> withinIcons (getIconURL sampleFiles ''passwd'' ''..'') = False"
proof -
  have a: "getIconURL sampleFiles ''passwd'' ''../../etc'' = ''icons/../../etc/file.svg''" by code_simp
  have b: "Clean ''icons/../../etc/file.svg'' = ''../etc/file.svg''" by code_simp
  have s: "sanitize ''passwd'' \<noteq> ''icons''" by code_simp
  have g: "getIconURL sampleFiles ''passwd'' ''..'' = ''icons/../file.svg''" by code_simp
  note t = getIconURL_size_verbatim [of sampleFiles "''passwd''" "''../../etc''"]
  from t [THEN conjunct2, THEN conjunct2, THEN conjunct1]
  have c: "withinIcons (getIconURL sampleFiles ''passwd'' ''../..'') = False"
    by simp
  from t [THEN conjunct2, THEN conjunct2, THEN conjunct2] s
  have "\<not> withinIcons (getIconURL sampleFiles ''passwd'' ''..'')"
    by (rule mp)
  then have d: "withinIcons (getIconURL sampleFiles ''passwd'' ''..'') = False"
    by simp
  have b': "Clean (getIconURL sampleFiles ''passwd'' ''../../etc'') = ''../etc/file.svg''"
    unfolding a by (rule b)
  show ?thesis by (intro conjI a b' c s g d)
qed

text \<open>
  C7. Metadata resolution calls \<^verbatim>\<open>drive.Info\<close> first at the time of the request; after
  a failed call that ended by the deadline of ten seconds it sleeps 100 ms and calls
  again; it stops at the first call that succeeds or ends past the deadline and
  returns what that last call returned. It makes at least one and at most 102 calls.
  It writes nothing: when the last call failed, the handler serves the icon for
  \<^verbatim>\<open>unavailable\<close> and leaves the files and the trace as they were.
\<close>

theorem resolveInfo_retries_until_deadline:
  "(let as = pollInfo env ident (t0 + 10 * Second) t0 in
      resolveInfo env ident t0 = last as
    \<and> 0 < length as \<and> length as \<le> 102
    \<and> started (as ! 0) = t0
    \<and> (\<forall>k. k < length as \<longrightarrow>
          outcome (as ! k) = fst (drive_Info env (started (as ! k)) ident)
          \<and> ended (as ! k) = started (as ! k) + max 0 (snd (drive_Info env (started (as ! k)) ident)))
    \<and> (\<forall>k. Suc k < length as \<longrightarrow>
          errOf (outcome (as ! k)) \<noteq> None
          \<and> ended (as ! k) \<le> t0 + 10 * Second
          \<and> started (as ! Suc k) = ended (as ! k) + 100 * Millisecond)
    \<and> (errOf (outcome (last as)) = None \<or> t0 + 10 * Second < ended (last as)))
   \<and> (Preview Config \<noteq> ''none'' \<and> queryGet r ''id'' = ident \<and> clock w = t0
        \<and> errOf (outcome (resolveInfo env ident t0)) \<noteq> None \<longrightarrow>
        getFilePreview env Config r w =
          (HttpServeFile (getIconURL (files w) ''unavailable.svg'' ''big''),
           w\<lparr>clock := ended (resolveInfo env ident t0)\<rparr>))"
proof -
  let ?as = "pollInfo env ident (t0 + 10 * Second) t0"
  have ne: "?as \<noteq> []" by (rule pollInfo_nonempty)
  have a: "resolveInfo env ident t0 = last ?as" by (simp add: resolveInfo_def)
  have b: "0 < length ?as \<and> length ?as \<le> 102"
    using ne pollInfo_at_most_102 [of env ident t0] by simp
  have c: "started (?as ! 0) = t0"
    using pollInfo_hd [of env ident "t0 + 10 * Second" t0] ne by (simp add: hd_conv_nth)
  have d: "\<forall>k. k < length ?as \<longrightarrow>
          outcome (?as ! k) = fst (drive_Info env (started (?as ! k)) ident)
          \<and> ended (?as ! k) = started (?as ! k) + max 0 (snd (drive_Info env (started (?as ! k)) ident))"
    using pollInfo_each [of _ env ident "t0 + 10 * Second" t0] by blast
  have e: "\<forall>k. Suc k < length ?as \<longrightarrow>
          errOf (outcome (?as ! k)) \<noteq> None
          \<and> ended (?as ! k) \<le> t0 + 10 * Second
          \<and> started (?as ! Suc k) = ended (?as ! k) + 100 * Millisecond"
    using pollInfo_steps [of _ env ident "t0 + 10 * Second" t0] by blast
  have f: "errOf (outcome (last ?as)) = None \<or> t0 + 10 * Second < ended (last ?as)"
    by (rule pollInfo_last)
  have g: "Preview Config \<noteq> ''none'' \<and> queryGet r ''id'' = ident \<and> clock w = t0
        \<and> errOf (outcome (resolveInfo env ident t0)) \<noteq> None \<longrightarrow>
        getFilePreview env Config r w =
          (HttpServeFile (getIconURL (files w) ''unavailable.svg'' ''big''),
           w\<lparr>clock := ended (resolveInfo env ident t0)\<rparr>)"
  proof (intro impI, elim conjE)
    assume h: "Preview Config \<noteq> ''none''" "queryGet r ''id'' = ident" "clock w = t0"
       "errOf (outcome (resolveInfo env ident t0)) \<noteq> None"
    from h(4) obtain x where "outcome (resolveInfo env ident t0) = Inl x"
      by (cases "outcome (resolveInfo env ident t0)") (auto simp: errOf_def)
    with h(1-3) show "getFilePreview env Config r w =
          (HttpServeFile (getIconURL (files w) ''unavailable.svg'' ''big''),
           w\<lparr>clock := ended (resolveInfo env ident t0)\<rparr>)"
      using getFilePreview_unresolved [of Config env r w x] by simp
  qed
  from a b c d e f g show ?thesis unfolding Let_def by blast
qed

theorem resolveInfo_retries_until_deadline_witness:
  "length (pollInfo lateEnv ''photos/a.jpg'' (0 + 10 * Second) 0) = 4
   \<and> errOf (outcome (pollInfo lateEnv ''photos/a.jpg'' (0 + 10 * Second) 0 ! 0)) = Some ErrNotExist
   \<and> ended (pollInfo lateEnv ''photos/a.jpg'' (0 + 10 * Second) 0 ! 0) = 10 * Millisecond
   \<and> started (pollInfo lateEnv ''photos/a.jpg'' (0 + 10 * Second) 0 ! Suc 0) =
       ended (pollInfo lateEnv ''photos/a.jpg'' (0 + 10 * Second) 0 ! 0) + 100 * Millisecond
   \<and> outcome (resolveInfo lateEnv ''photos/a.jpg'' 0) = Inr photoInfo
   \<and> length (pollInfo sampleEnv ''nope'' (0 + 10 * Second) 0) = 102
   \<and> fst (getFilePreview sampleEnv localConfig (request ''nope'' ''100'' ''100'') sampleWorld)
       = HttpServeFile ''icons/big/file.svg''"
proof -
  let ?as = "pollInfo lateEnv ''photos/a.jpg'' (0 + 10 * Second) 0"
  have l: "length ?as = 4" by code_simp
  have o: "errOf (outcome (?as ! 0)) = Some ErrNotExist" by code_simp
  have e: "ended (?as ! 0) = 10 * Millisecond" by code_simp
  have r: "outcome (resolveInfo lateEnv ''photos/a.jpg'' 0) = Inr photoInfo"
    by code_simp
  have n: "length (pollInfo sampleEnv ''nope'' (0 + 10 * Second) 0) = 102" by code_simp
  have lt: "Suc 0 < length ?as" unfolding l by simp
  note t = resolveInfo_retries_until_deadline [of lateEnv "''photos/a.jpg''" 0 localConfig
              "request ''photos/a.jpg'' ''100'' ''100''" sampleWorld, unfolded Let_def]
  from t have "\<forall>k. Suc k < length ?as \<longrightarrow>
          errOf (outcome (?as ! k)) \<noteq> None
          \<and> ended (?as ! k) \<le> 0 + 10 * Second
          \<and> started (?as ! Suc k) = ended (?as ! k) + 100 * Millisecond"
    by (elim conjE)
  with lt have s: "started (?as ! Suc 0) = ended (?as ! 0) + 100 * Millisecond"
    by blast
  have p: "Preview localConfig \<noteq> ''none''" by (simp add: localConfig_def)
  have q: "queryGet (request ''nope'' ''100'' ''100'') ''id'' = ''nope''"
    by (simp add: request_def queryGet_def)
  have c: "clock sampleWorld = 0" by (simp add: sampleWorld_def)
  have u: "errOf (outcome (resolveInfo sampleEnv ''nope'' 0)) \<noteq> None" by code_simp
  have i: "getIconURL (files sampleWorld) ''unavailable.svg'' ''big'' = ''icons/big/file.svg''"
    by code_simp
  note t' = resolveInfo_retries_until_deadline [of sampleEnv "''nope''" 0 localConfig
               "request ''nope'' ''100'' ''100''" sampleWorld, unfolded Let_def]
  from t' have "Preview localConfig \<noteq> ''none'' \<and> queryGet (request ''nope'' ''100'' ''100'') ''id'' = ''nope''
        \<and> clock sampleWorld = 0
        \<and> errOf (outcome (resolveInfo sampleEnv ''nope'' 0)) \<noteq> None \<longrightarrow>
        getFilePreview sampleEnv localConfig (request ''nope'' ''100'' ''100'') sampleWorld =
          (HttpServeFile (getIconURL (files sampleWorld) ''unavailable.svg'' ''big''),
           sampleWorld\<lparr>clock := ended (resolveInfo sampleEnv ''nope'' 0)\<rparr>)"
    by (elim conjE)
  with p q c u have "getFilePreview sampleEnv localConfig (request ''nope'' ''100'' ''100'') sampleWorld =
          (HttpServeFile (getIconURL (files sampleWorld) ''unavailable.svg'' ''big''),
           sampleWorld\<lparr>clock := ended (resolveInfo sampleEnv ''nope'' 0)\<rparr>)"
    by blast
  then have g: "fst (getFilePreview sampleEnv localConfig (request ''nope'' ''100'' ''100'') sampleWorld)
       = HttpServeFile ''icons/big/file.svg''"
    unfolding i by simp
  show ?thesis by (intro conjI l o e s r n g)
qed

text \<open>
  C9. For a file whose display name contains no dot, the fallback raises the panic of
  the slice \<^verbatim>\<open>filepath.Ext(info.Name)[1:]\<close> instead of serving an icon. A request whose
  metadata resolves to such a file can only end in a served artifact or in a panic
  (that of the fallback, that of the slice of the identifier, or, with an external
  service and a failed \<^verbatim>\<open>drive.Read\<close>, the one that ends the process); when a ceiling is
  exceeded it ends in the panic of the fallback, with the files and the trace
  untouched.
\<close>

theorem serveIconPreview_panics_without_dot:
  assumes "CHR ''.'' \<notin> set (Name info)"
  shows "serveIconPreview fs (Some info) = GoPanic ''slice bounds out of range [1:0]''
       \<and> (Preview Config \<noteq> ''none''
            \<and> outcome (resolveInfo env (queryGet r ''id'') (clock w)) = Inr info \<longrightarrow>
            fst (getFilePreview env Config r w) = GoPanic ''slice bounds out of range [1:0]''
          \<or> fst (getFilePreview env Config r w) = GoPanic ''slice bounds out of range''
          \<or> fst (getFilePreview env Config r w) =
               HttpServeFile (previewPath Config (queryGet r ''id'') (queryGet r ''width'')
                                (queryGet r ''height'') @ ''.jpg'')
          \<or> fst (getFilePreview env Config r w) =
               HttpServeFile (previewPath Config (queryGet r ''id'') (queryGet r ''width'')
                                (queryGet r ''height'') @ ''.png'')
          \<or> fst (getFilePreview env Config r w) = ProcessDies
             \<and> Preview Config \<noteq> [] \<and> (\<exists>e. drive_Read env (queryGet r ''id'') = Inl e))
       \<and> (Preview Config \<noteq> ''none''
            \<and> outcome (resolveInfo env (queryGet r ''id'') (clock w)) = Inr info
            \<and> (50 * 1000 * 1000 < Size info \<or> 2000 < dimension (queryGet r ''width'') 214
                 \<or> 2000 < dimension (queryGet r ''height'') 163) \<longrightarrow>
            getFilePreview env Config r w =
              (GoPanic ''slice bounds out of range [1:0]'',
               w\<lparr>clock := ended (resolveInfo env (queryGet r ''id'') (clock w))\<rparr>))"
proof -
  have p: "serveIconPreview fs' (Some info) = GoPanic ''slice bounds out of range [1:0]''" for fs'
    by (rule serveIconPreview_no_ext) (rule Ext_no_dot [OF assms])
  have b: "Preview Config \<noteq> ''none''
            \<and> outcome (resolveInfo env (queryGet r ''id'') (clock w)) = Inr info \<longrightarrow>
            fst (getFilePreview env Config r w) = GoPanic ''slice bounds out of range [1:0]''
          \<or> fst (getFilePreview env Config r w) = GoPanic ''slice bounds out of range''
          \<or> fst (getFilePreview env Config r w) =
               HttpServeFile (previewPath Config (queryGet r ''id'') (queryGet r ''width'')
                                (queryGet r ''height'') @ ''.jpg'')
          \<or> fst (getFilePreview env Config r w) =
               HttpServeFile (previewPath Config (queryGet r ''id'') (queryGet r ''width'')
                                (queryGet r ''height'') @ ''.png'')
          \<or> fst (getFilePreview env Config r w) = ProcessDies
             \<and> Preview Config \<noteq> [] \<and> (\<exists>e. drive_Read env (queryGet r ''id'') = Inl e)"
  proof (intro impI, elim conjE)
    assume h: "Preview Config \<noteq> ''none''"
       "outcome (resolveInfo env (queryGet r ''id'') (clock w)) = Inr info"
    from getFilePreview_response [OF h] show "fst (getFilePreview env Config r w) = GoPanic ''slice bounds out of range [1:0]''
          \<or> fst (getFilePreview env Config r w) = GoPanic ''slice bounds out of range''
          \<or> fst (getFilePreview env Config r w) =
               HttpServeFile (previewPath Config (queryGet r ''id'') (queryGet r ''width'')
                                (queryGet r ''height'') @ ''.jpg'')
          \<or> fst (getFilePreview env Config r w) =
               HttpServeFile (previewPath Config (queryGet r ''id'') (queryGet r ''width'')
                                (queryGet r ''height'') @ ''.png'')
          \<or> fst (getFilePreview env Config r w) = ProcessDies
             \<and> Preview Config \<noteq> [] \<and> (\<exists>e. drive_Read env (queryGet r ''id'') = Inl e)"
      unfolding p by blast
  qed
  have c: "Preview Config \<noteq> ''none''
            \<and> outcome (resolveInfo env (queryGet r ''id'') (clock w)) = Inr info
            \<and> (50 * 1000 * 1000 < Size info \<or> 2000 < dimension (queryGet r ''width'') 214
                 \<or> 2000 < dimension (queryGet r ''height'') 163) \<longrightarrow>
            getFilePreview env Config r w =
              (GoPanic ''slice bounds out of range [1:0]'',
               w\<lparr>clock := ended (resolveInfo env (queryGet r ''id'') (clock w))\<rparr>)"
  proof (intro impI, elim conjE)
    assume h: "Preview Config \<noteq> ''none''"
       "outcome (resolveInfo env (queryGet r ''id'') (clock w)) = Inr info"
       "50 * 1000 * 1000 < Size info \<or> 2000 < dimension (queryGet r ''width'') 214
                 \<or> 2000 < dimension (queryGet r ''height'') 163"
    show "getFilePreview env Config r w =
              (GoPanic ''slice bounds out of range [1:0]'',
               w\<lparr>clock := ended (resolveInfo env (queryGet r ''id'') (clock w))\<rparr>)"
      unfolding getFilePreview_ceiling [OF h] p ..
  qed
  from p b c show ?thesis by (intro conjI)
qed

theorem serveIconPreview_panics_without_dot_witness:
  "CHR ''.'' \<notin> set (Name makefileInfo)
   \<and> Preview localConfig \<noteq> ''none''
   \<and> outcome (resolveInfo sampleEnv (queryGet (request ''src/Makefile'' ''100'' ''5000'') ''id'')
                (clock sampleWorld)) = Inr makefileInfo
   \<and> 2000 < dimension (queryGet (request ''src/Makefile'' ''100'' ''5000'') ''height'') 163
   \<and> serveIconPreview sampleFiles (Some makefileInfo) = GoPanic ''slice bounds out of range [1:0]''
   \<and> fst (getFilePreview sampleEnv localConfig (request ''src/Makefile'' ''100'' ''5000'') sampleWorld)
       = GoPanic ''slice bounds out of range [1:0]''"
proof -
  let ?r = "request ''src/Makefile'' ''100'' ''5000''"
  have n: "CHR ''.'' \<notin> set (Name makefileInfo)" by (simp add: makefileInfo_def)
  have p: "Preview localConfig \<noteq> ''none''" by (simp add: localConfig_def)
  have o: "outcome (resolveInfo sampleEnv (queryGet ?r ''id'') (clock sampleWorld)) = Inr makefileInfo"
    by code_simp
  have d: "2000 < dimension (queryGet ?r ''height'') 163" by code_simp
  note t = serveIconPreview_panics_without_dot [OF n, of sampleFiles localConfig sampleEnv ?r sampleWorld]
  from t have s: "serveIconPreview sampleFiles (Some makefileInfo) = GoPanic ''slice bounds out of range [1:0]''"
    by (elim conjE)
  from t have "Preview localConfig \<noteq> ''none''
            \<and> outcome (resolveInfo sampleEnv (queryGet ?r ''id'') (clock sampleWorld)) = Inr makefileInfo
            \<and> (50 * 1000 * 1000 < Size makefileInfo \<or> 2000 < dimension (queryGet ?r ''width'') 214
                 \<or> 2000 < dimension (queryGet ?r ''height'') 163) \<longrightarrow>
            getFilePreview sampleEnv localConfig ?r sampleWorld =
              (GoPanic ''slice bounds out of range [1:0]'',
               sampleWorld\<lparr>clock := ended (resolveInfo sampleEnv (queryGet ?r ''id'') (clock sampleWorld))\<rparr>)"
    by (elim conjE)
  with p o d have "getFilePreview sampleEnv localConfig ?r sampleWorld =
              (GoPanic ''slice bounds out of range [1:0]'',
               sampleWorld\<lparr>clock := ended (resolveInfo sampleEnv (queryGet ?r ''id'') (clock sampleWorld))\<rparr>)"
    by blast
  then have g: "fst (getFilePreview sampleEnv localConfig ?r sampleWorld)
       = GoPanic ''slice bounds out of range [1:0]''"
    by simp
  show ?thesis by (intro conjI n p o d s g)
qed

text \<open>
  C1, as the code has it. With \<^verbatim>\<open>Config.Preview\<close> set to \<^verbatim>\<open>none\<close> the handler answers
  500 "Previews not configured". With any other configuration: when the metadata
  cannot be resolved it serves the icon for \<^verbatim>\<open>unavailable\<close>; when the metadata resolves
  to a file whose name has an extension, the identifier is at least as long as the
  base name of the source path, and no external service is configured or
  \<^verbatim>\<open>drive.Read\<close> succeeds, the handler ends in \<^verbatim>\<open>http.ServeFile\<close> of the icon of that
  extension, of the generic icon, or of the artifact at the preview path with
  \<^verbatim>\<open>.jpg\<close> or \<^verbatim>\<open>.png\<close>.
\<close>

theorem getFilePreview_error_only_when_unconfigured:
  "(Preview Config = ''none'' \<longrightarrow>
      getFilePreview env Config r w = (FormatText 500 ''Previews not configured'', w))
   \<and> (Preview Config \<noteq> ''none''
        \<and> errOf (outcome (resolveInfo env (queryGet r ''id'') (clock w))) \<noteq> None \<longrightarrow>
        fst (getFilePreview env Config r w) =
          HttpServeFile (getIconURL (files w) ''unavailable.svg'' ''big''))
   \<and> (Preview Config \<noteq> ''none''
        \<and> outcome (resolveInfo env (queryGet r ''id'') (clock w)) = Inr info
        \<and> Ext (Name info) \<noteq> []
        \<and> length (Base (Join [Root Config, queryGet r ''id''])) \<le> length (queryGet r ''id'')
        \<and> (Preview Config = [] \<or> (\<exists>b. drive_Read env (queryGet r ''id'') = Inr b)) \<longrightarrow>
        fst (getFilePreview env Config r w) =
          HttpServeFile (''icons/big/'' @ sanitize (tl (Ext (Name info)) @ ''.svg''))
      \<or> fst (getFilePreview env Config r w) = HttpServeFile ''icons/big/file.svg''
      \<or> fst (getFilePreview env Config r w) =
          HttpServeFile (previewPath Config (queryGet r ''id'') (queryGet r ''width'')
                           (queryGet r ''height'') @ ''.jpg'')
      \<or> fst (getFilePreview env Config r w) =
          HttpServeFile (previewPath Config (queryGet r ''id'') (queryGet r ''width'')
                           (queryGet r ''height'') @ ''.png''))"
proof -
  let ?a = "resolveInfo env (queryGet r ''id'') (clock w)"
  let ?P = "previewPath Config (queryGet r ''id'') (queryGet r ''width'') (queryGet r ''height'')"
  let ?resp = "fst (getFilePreview env Config r w)"
  have a: "Preview Config = ''none'' \<longrightarrow>
      getFilePreview env Config r w = (FormatText 500 ''Previews not configured'', w)"
    by (simp add: getFilePreview_none)
  have b: "Preview Config \<noteq> ''none'' \<and> errOf (outcome ?a) \<noteq> None \<longrightarrow>
        ?resp = HttpServeFile (getIconURL (files w) ''unavailable.svg'' ''big'')"
  proof (intro impI, elim conjE)
    assume h: "Preview Config \<noteq> ''none''" "errOf (outcome ?a) \<noteq> None"
    from h(2) obtain x where "outcome ?a = Inl x"
      by (cases "outcome ?a") (auto simp: errOf_def)
    from getFilePreview_unresolved [OF h(1) this]
    show "?resp = HttpServeFile (getIconURL (files w) ''unavailable.svg'' ''big'')" by simp
  qed
  have c: "Preview Config \<noteq> ''none''
        \<and> outcome ?a = Inr info
        \<and> Ext (Name info) \<noteq> []
        \<and> length (Base (Join [Root Config, queryGet r ''id''])) \<le> length (queryGet r ''id'')
        \<and> (Preview Config = [] \<or> (\<exists>b. drive_Read env (queryGet r ''id'') = Inr b)) \<longrightarrow>
        ?resp = HttpServeFile (''icons/big/'' @ sanitize (tl (Ext (Name info)) @ ''.svg''))
      \<or> ?resp = HttpServeFile ''icons/big/file.svg''
      \<or> ?resp = HttpServeFile (?P @ ''.jpg'')
      \<or> ?resp = HttpServeFile (?P @ ''.png'')"
  proof (intro impI, elim conjE)
    assume h: "Preview Config \<noteq> ''none''" "outcome ?a = Inr info" "Ext (Name info) \<noteq> []"
      "length (Base (Join [Root Config, queryGet r ''id''])) \<le> length (queryGet r ''id'')"
      "Preview Config = [] \<or> (\<exists>b. drive_Read env (queryGet r ''id'') = Inr b)"
    have icon: "serveIconPreview fs (Some info)
                  = HttpServeFile (''icons/big/'' @ sanitize (tl (Ext (Name info)) @ ''.svg''))
              \<or> serveIconPreview fs (Some info) = HttpServeFile ''icons/big/file.svg''" for fs
      unfolding serveIconPreview_ext [OF h(3)] getIconURL_cases by simp
    have icon': "?resp = serveIconPreview fs (Some info) \<Longrightarrow>
        ?resp = HttpServeFile (''icons/big/'' @ sanitize (tl (Ext (Name info)) @ ''.svg''))
      \<or> ?resp = HttpServeFile ''icons/big/file.svg''" for fs
      using icon [of fs] by simp
    show "?resp = HttpServeFile (''icons/big/'' @ sanitize (tl (Ext (Name info)) @ ''.svg''))
      \<or> ?resp = HttpServeFile ''icons/big/file.svg''
      \<or> ?resp = HttpServeFile (?P @ ''.jpg'')
      \<or> ?resp = HttpServeFile (?P @ ''.png'')"
    proof (cases "50 * 1000 * 1000 < Size info \<or> 2000 < dimension (queryGet r ''width'') 214
           \<or> 2000 < dimension (queryGet r ''height'') 163")
      case True
      from getFilePreview_ceiling [OF h(1,2) True]
      have "?resp = serveIconPreview (files w) (Some info)" by simp
      from icon' [OF this] show ?thesis by blast
    next
      case False
      from h(4) have ns: "\<not> length (queryGet r ''id'') < length (Base (Join [Root Config, queryGet r ''id'']))"
        by simp
      note served = getFilePreview_served [OF h(1,2) False ns]
      from servePreview_response [of env Config "queryGet r ''id''" info
              "dimension (queryGet r ''width'') 214" "dimension (queryGet r ''height'') 163"
              "queryGet r ''width''" "queryGet r ''height''"
              "Join [Root Config, queryGet r ''id'']" "Base (Join [Root Config, queryGet r ''id''])"
              "previewFolder Config (queryGet r ''id'')" ?P
              "w\<lparr>clock := ended ?a\<rparr>", folded served]
      have "(\<exists>fs. ?resp = serveIconPreview fs (Some info))
          \<or> ?resp = HttpServeFile (?P @ ''.jpg'') \<or> ?resp = HttpServeFile (?P @ ''.png'')
          \<or> ?resp = ProcessDies \<and> Preview Config \<noteq> []
              \<and> (\<exists>e. drive_Read env (queryGet r ''id'') = Inl e)" .
      moreover from h(5) have "\<not> (Preview Config \<noteq> []
              \<and> (\<exists>e. drive_Read env (queryGet r ''id'') = Inl e))"
        by auto
      ultimately have "(\<exists>fs. ?resp = serveIconPreview fs (Some info))
          \<or> ?resp = HttpServeFile (?P @ ''.jpg'') \<or> ?resp = HttpServeFile (?P @ ''.png'')"
        by blast
      then show ?thesis using icon' by blast
    qed
  qed
  from a b c show ?thesis by (intro conjI)
qed

theorem getFilePreview_error_only_when_unconfigured_witness:
  "Preview remoteConfig \<noteq> ''none''
   \<and> outcome (resolveInfo sampleEnv (queryGet (request ''docs/a.txt'' ''100'' ''100'') ''id'')
                (clock docsWorld)) = Inr textInfo
   \<and> Ext (Name textInfo) \<noteq> []
   \<and> length (Base (Join [Root remoteConfig, queryGet (request ''docs/a.txt'' ''100'' ''100'') ''id'']))
       \<le> length (queryGet (request ''docs/a.txt'' ''100'' ''100'') ''id'')
   \<and> drive_Read sampleEnv (queryGet (request ''docs/a.txt'' ''100'' ''100'') ''id'') = Inr ''content''
   \<and> sanitize (tl (Ext (Name textInfo)) @ ''.svg'') = ''txt.svg''
   \<and> fst (getFilePreview sampleEnv remoteConfig (request ''docs/a.txt'' ''100'' ''100'') docsWorld)
        = HttpServeFile ''icons/big/txt.svg''
   \<and> (fst (getFilePreview sampleEnv remoteConfig (request ''docs/a.txt'' ''100'' ''100'') docsWorld)
         = HttpServeFile (''icons/big/'' @ sanitize (tl (Ext (Name textInfo)) @ ''.svg''))
       \<or> fst (getFilePreview sampleEnv remoteConfig (request ''docs/a.txt'' ''100'' ''100'') docsWorld)
         = HttpServeFile ''icons/big/file.svg''
       \<or> fst (getFilePreview sampleEnv remoteConfig (request ''docs/a.txt'' ''100'' ''100'') docsWorld)
         = HttpServeFile (previewPath remoteConfig ''docs/a.txt'' ''100'' ''100'' @ ''.jpg'')
       \<or> fst (getFilePreview sampleEnv remoteConfig (request ''docs/a.txt'' ''100'' ''100'') docsWorld)
         = HttpServeFile (previewPath remoteConfig ''docs/a.txt'' ''100'' ''100'' @ ''.png''))"
proof -
  let ?r = "request ''docs/a.txt'' ''100'' ''100''"
  have p: "Preview remoteConfig \<noteq> ''none''" by (simp add: remoteConfig_def localConfig_def)
  have o: "outcome (resolveInfo sampleEnv (queryGet ?r ''id'') (clock docsWorld)) = Inr textInfo"
    by code_simp
  have e: "Ext (Name textInfo) \<noteq> []" by code_simp
  have l: "length (Base (Join [Root remoteConfig, queryGet ?r ''id''])) \<le> length (queryGet ?r ''id'')"
    by code_simp
  have d: "drive_Read sampleEnv (queryGet ?r ''id'') = Inr ''content''" by (simp add: sampleEnv_def)
  have s: "sanitize (tl (Ext (Name textInfo)) @ ''.svg'') = ''txt.svg''" by code_simp
  have g: "fst (getFilePreview sampleEnv remoteConfig ?r docsWorld) = HttpServeFile ''icons/big/txt.svg''"
    by code_simp
  from d have d': "Preview remoteConfig = [] \<or> (\<exists>b. drive_Read sampleEnv (queryGet ?r ''id'') = Inr b)"
    by blast
  note t = getFilePreview_error_only_when_unconfigured [of remoteConfig sampleEnv ?r docsWorld textInfo]
  note t3 = t [THEN conjunct2, THEN conjunct2]
  have x: "fst (getFilePreview sampleEnv remoteConfig ?r docsWorld)
         = HttpServeFile (''icons/big/'' @ sanitize (tl (Ext (Name textInfo)) @ ''.svg''))
       \<or> fst (getFilePreview sampleEnv remoteConfig ?r docsWorld) = HttpServeFile ''icons/big/file.svg''
       \<or> fst (getFilePreview sampleEnv remoteConfig ?r docsWorld)
         = HttpServeFile (previewPath remoteConfig ''docs/a.txt'' ''100'' ''100'' @ ''.jpg'')
       \<or> fst (getFilePreview sampleEnv remoteConfig ?r docsWorld)
         = HttpServeFile (previewPath remoteConfig ''docs/a.txt'' ''100'' ''100'' @ ''.png'')"
    using t3 [THEN mp, OF conjI [OF p conjI [OF o conjI [OF e conjI [OF l d']]]]]
    by (simp only: queryGet_request)
  show ?thesis by (intro conjI p o e l d s g x)
qed

theorem getFilePreview_unconfigured_counterexample:
  "Preview noneConfig = ''none''
   \<and> getFilePreview sampleEnv noneConfig (request ''photos/a.jpg'' ''100'' ''100'') sampleWorld
       = (FormatText 500 ''Previews not configured'', sampleWorld)"
  by (simp add: getFilePreview_def noneConfig_def)

text \<open>
  C3, at a failing input. The makefile of the installation is requested with width
  3000: the ceiling check sends the request to the fallback, no generator runs and no
  file is written, but the name has no extension and the fallback panics instead of
  serving the icon.
\<close>

theorem ceiling_fallback_panics_for_makefile:
  "outcome (resolveInfo sampleEnv ''src/Makefile'' (clock sampleWorld)) = Inr makefileInfo
   \<and> 2000 < dimension ''3000'' 214
   \<and> fst (getFilePreview sampleEnv localConfig (request ''src/Makefile'' ''3000'' ''100'') sampleWorld)
       = GoPanic ''slice bounds out of range [1:0]''
   \<and> files (snd (getFilePreview sampleEnv localConfig (request ''src/Makefile'' ''3000'' ''100'') sampleWorld))
       = files sampleWorld
   \<and> trace (snd (getFilePreview sampleEnv localConfig (request ''src/Makefile'' ''3000'' ''100'') sampleWorld))
       = trace sampleWorld"
proof -
  let ?r = "request ''src/Makefile'' ''3000'' ''100''"
  have p: "Preview localConfig \<noteq> ''none''" by (simp add: localConfig_def)
  have o: "outcome (resolveInfo sampleEnv ''src/Makefile'' (clock sampleWorld)) = Inr makefileInfo"
    by code_simp
  have d: "2000 < dimension ''3000'' 214" by code_simp
  have s: "serveIconPreview (files sampleWorld) (Some makefileInfo)
      = GoPanic ''slice bounds out of range [1:0]''"
    by code_simp
  have "getFilePreview sampleEnv localConfig ?r sampleWorld =
      (serveIconPreview (files sampleWorld) (Some makefileInfo),
       sampleWorld\<lparr>clock := ended (resolveInfo sampleEnv (queryGet ?r ''id'') (clock sampleWorld))\<rparr>)"
    by (rule getFilePreview_ceiling [OF p]) (simp_all add: o d)
  then have g: "fst (getFilePreview sampleEnv localConfig ?r sampleWorld)
        = GoPanic ''slice bounds out of range [1:0]''"
    and f: "files (snd (getFilePreview sampleEnv localConfig ?r sampleWorld)) = files sampleWorld"
    and t: "trace (snd (getFilePreview sampleEnv localConfig ?r sampleWorld)) = trace sampleWorld"
    by (simp_all add: s)
  show ?thesis by (intro conjI o d g f t)
qed

theorem ceiling_fallback_panics_for_makefile_witness:
  "fst (getFilePreview sampleEnv localConfig (request ''src/Makefile'' ''3000'' ''100'') sampleWorld)
     \<noteq> HttpServeFile ''icons/big/file.svg''"
  using ceiling_fallback_panics_for_makefile by simp

text \<open>
  C4, at a failing input. The makefile is requested at 100x100 with no external
  service: no generator applies, the placeholder is written, and the fallback panics
  instead of serving the icon. The second request finds the placeholder, runs no
  generator and panics again.
\<close>

theorem placeholder_fallback_panics_for_makefile:
  "fst (getFilePreview sampleEnv localConfig (request ''src/Makefile'' ''100'' ''100'') sampleWorld)
     = GoPanic ''slice bounds out of range [1:0]''
   \<and> trace (snd (getFilePreview sampleEnv localConfig (request ''src/Makefile'' ''100'' ''100'') sampleWorld))
     = [LogPrint ErrNotExist]
   \<and> os_Stat (files (snd (getFilePreview sampleEnv localConfig
                (request ''src/Makefile'' ''100'' ''100'') sampleWorld)))
        ''/data/src/.preview/Makefile___100x100.jpg'' = Inr 0
   \<and> fst (getFilePreview sampleEnv localConfig (request ''src/Makefile'' ''100'' ''100'')
            (snd (getFilePreview sampleEnv localConfig (request ''src/Makefile'' ''100'' ''100'') sampleWorld)))
     = GoPanic ''slice bounds out of range [1:0]''
   \<and> trace (snd (getFilePreview sampleEnv localConfig (request ''src/Makefile'' ''100'' ''100'')
            (snd (getFilePreview sampleEnv localConfig (request ''src/Makefile'' ''100'' ''100'') sampleWorld))))
     = [LogPrint ErrNotExist]"
proof -
  let ?r = "request ''src/Makefile'' ''100'' ''100''"
  let ?w1 = "snd (getFilePreview sampleEnv localConfig ?r sampleWorld)"
  have a: "fst (getFilePreview sampleEnv localConfig ?r sampleWorld)
     = GoPanic ''slice bounds out of range [1:0]''" by code_simp
  have b: "trace ?w1 = [LogPrint ErrNotExist]" by code_simp
  have c: "os_Stat (files ?w1) ''/data/src/.preview/Makefile___100x100.jpg'' = Inr 0" by code_simp
  have d: "fst (getFilePreview sampleEnv localConfig ?r ?w1)
     = GoPanic ''slice bounds out of range [1:0]''" by code_simp
  have e: "trace (snd (getFilePreview sampleEnv localConfig ?r ?w1)) = [LogPrint ErrNotExist]"
    by code_simp
  show ?thesis by (intro conjI a b c d e)
qed

theorem placeholder_fallback_panics_for_makefile_witness:
  "fst (getFilePreview sampleEnv localConfig (request ''src/Makefile'' ''100'' ''100'')
            (snd (getFilePreview sampleEnv localConfig (request ''src/Makefile'' ''100'' ''100'') sampleWorld)))
     \<noteq> HttpServeFile ''icons/big/file.svg''"
  using placeholder_fallback_panics_for_makefile by simp

text \<open>
  C8, as the code has it, for a generation that is given the reader of a successful
  \<^verbatim>\<open>drive.Read\<close>. The external generator returns, and it fails exactly when the request
  cannot be built, the HTTP call errors, the response status is not 200, the output
  file cannot be created, or the copy of the body ends with an error. On success the
  extension is \<^verbatim>\<open>.png\<close> when the \<^verbatim>\<open>Content-type\<close> header is \<^verbatim>\<open>image/png\<close> and \<^verbatim>\<open>.jpg\<close>
  otherwise, and the file at the preview path with that extension holds exactly the
  body of the response.
\<close>

theorem getExternalPreview_outcome:
  "\<exists>ext err w'.
     getExternalPreview env Config (Some content) preview name width height w = Returns ext err w'
     \<and> (err \<noteq> None \<longleftrightarrow>
          http_NewRequest env (Preview Config) \<noteq> None
        \<or> (\<exists>e. client_Do env (Preview Config)
                  \<lparr>form_width = width, form_height = height, form_name = name,
                   form_file = Some content\<rparr>
                = Inl e)
        \<or> (\<exists>res. client_Do env (Preview Config)
                  \<lparr>form_width = width, form_height = height, form_name = name,
                   form_file = Some content\<rparr>
                = Inr res
              \<and> (StatusCode res \<noteq> 200
                   \<or> canCreate (files w)
                        (preview @ (if ContentType res = ''image/png'' then ''.png'' else ''.jpg'')) = False
                   \<or> BodyErr res \<noteq> None)))
     \<and> (err = None \<longrightarrow>
          (\<exists>res. client_Do env (Preview Config)
                  \<lparr>form_width = width, form_height = height, form_name = name,
                   form_file = Some content\<rparr>
                = Inr res
              \<and> ext = (if ContentType res = ''image/png'' then ''.png'' else ''.jpg'')
              \<and> files w' (Clean (preview @ ext)) = Some (RegFile (Body res))))"
proof (cases "http_NewRequest env (Preview Config)")
  case (Some e)
  then show ?thesis by (simp add: getExternalPreview_def)
next
  case None
  let ?form = "\<lparr>form_width = width, form_height = height, form_name = name, form_file = Some content\<rparr>"
  show ?thesis
  proof (cases "client_Do env (Preview Config) ?form")
    case (Inl e)
    with None show ?thesis by (simp add: getExternalPreview_def)
  next
    case (Inr res)
    show ?thesis
    proof (cases "StatusCode res = 200")
      case False
      with None Inr show ?thesis by (simp add: getExternalPreview_def)
    next
      case True
      let ?ext = "if ContentType res = ''image/png'' then ''.png'' else ''.jpg''"
      show ?thesis
      proof (cases "canCreate (files w) (preview @ ?ext)")
        case False
        with None Inr True show ?thesis
          by (simp add: getExternalPreview_def Let_def os_Create_def os_WriteFile_def)
      next
        case create: True
        with None Inr True show ?thesis
          by (simp add: getExternalPreview_def Let_def os_Create_def os_WriteFile_def)
      qed
    qed
  qed
qed

theorem getExternalPreview_outcome_witness:
  "\<exists>w'. getExternalPreview sampleEnv remoteConfig (Some ''content'')
           ''/data/docs/.preview/report.txt___100x100'' ''report.txt'' ''100'' ''100'' docsWorld
         = Returns ''.png'' None w'
       \<and> files w' (Clean (''/data/docs/.preview/report.txt___100x100'' @ ''.png''))
           = Some (RegFile ''PNG'')"
proof -
  let ?g = "getExternalPreview sampleEnv remoteConfig (Some ''content'')
              ''/data/docs/.preview/report.txt___100x100'' ''report.txt'' ''100'' ''100'' docsWorld"
  let ?form = "\<lparr>form_width = ''100'', form_height = ''100'', form_name = ''report.txt'',
               form_file = Some ''content''\<rparr>"
  have a: "case ?g of Returns ext err w' \<Rightarrow> ext = ''.png'' \<and> err = None | Dies w' \<Rightarrow> False"
    by code_simp
  have b: "client_Do sampleEnv (Preview remoteConfig) ?form
       = Inr \<lparr>StatusCode = 200, ContentType = ''image/png'', Body = ''PNG'', BodyErr = None\<rparr>"
    by code_simp
  from getExternalPreview_outcome [of sampleEnv remoteConfig "''content''"
         "''/data/docs/.preview/report.txt___100x100''" "''report.txt''" "''100''" "''100''" docsWorld]
  obtain ext err w' where g: "?g = Returns ext err w'"
    and s: "err = None \<longrightarrow>
          (\<exists>res. client_Do sampleEnv (Preview remoteConfig) ?form = Inr res
              \<and> ext = (if ContentType res = ''image/png'' then ''.png'' else ''.jpg'')
              \<and> files w' (Clean (''/data/docs/.preview/report.txt___100x100'' @ ext))
                  = Some (RegFile (Body res)))"
    by (elim exE conjE)
  from a have e: "ext = ''.png''" and n: "err = None" unfolding g by simp_all
  from s n obtain res where r: "client_Do sampleEnv (Preview remoteConfig) ?form = Inr res"
    and f: "files w' (Clean (''/data/docs/.preview/report.txt___100x100'' @ ext)) = Some (RegFile (Body res))"
    by (elim impE exE conjE) simp
  from r have "Body res = ''PNG''" unfolding b by auto
  with f have "files w' (Clean (''/data/docs/.preview/report.txt___100x100'' @ ''.png''))
           = Some (RegFile ''PNG'')"
    unfolding e by simp
  with g e n show ?thesis by blast
qed

theorem getExternalPreview_created_counterexample:
  "httpSuccess 201
   \<and> http_NewRequest sampleEnv (Preview remoteConfig) = None
   \<and> client_Do sampleEnv (Preview remoteConfig)
        \<lparr>form_width = ''100'', form_height = ''100'', form_name = ''a.txt'',
         form_file = Some ''content''\<rparr>
       = Inr \<lparr>StatusCode = 201, ContentType = ''image/png'', Body = ''PNG'', BodyErr = None\<rparr>
   \<and> canCreate (files docsWorld) ''/data/docs/.preview/a.txt___100x100.png''
   \<and> getExternalPreview sampleEnv remoteConfig (Some ''content'')
              ''/data/docs/.preview/a.txt___100x100'' ''a.txt'' ''100'' ''100'' docsWorld
       = Returns [] (Some (PreviewServiceStatus 201))
           (docsWorld\<lparr>trace := trace docsWorld
              @ [ExternalGenerator ''/data/docs/.preview/a.txt___100x100'' ''a.txt'' ''100'' ''100'']\<rparr>)"
proof -
  have a: "httpSuccess 201" by (simp add: httpSuccess_def)
  have b: "http_NewRequest sampleEnv (Preview remoteConfig) = None" by code_simp
  have c: "client_Do sampleEnv (Preview remoteConfig)
        \<lparr>form_width = ''100'', form_height = ''100'', form_name = ''a.txt'',
         form_file = Some ''content''\<rparr>
       = Inr \<lparr>StatusCode = 201, ContentType = ''image/png'', Body = ''PNG'', BodyErr = None\<rparr>"
    by code_simp
  have d: "canCreate (files docsWorld) ''/data/docs/.preview/a.txt___100x100.png''" by code_simp
  have e: "getExternalPreview sampleEnv remoteConfig (Some ''content'')
              ''/data/docs/.preview/a.txt___100x100'' ''a.txt'' ''100'' ''100'' docsWorld
       = Returns [] (Some (PreviewServiceStatus 201))
           (docsWorld\<lparr>trace := trace docsWorld
              @ [ExternalGenerator ''/data/docs/.preview/a.txt___100x100'' ''a.txt'' ''100'' ''100'']\<rparr>)"
    unfolding getExternalPreview_def Let_def b c by simp
  show ?thesis by (intro conjI a b c d e)
qed




text \<open>
  C5, as the code has it. Take a request whose handling ran one generator and served
  the artifact it made, and a later request for the same key whose metadata still
  resolves to a file within the size ceiling. The later request probes \<^verbatim>\<open>.jpg\<close> first
  and \<^verbatim>\<open>.png\<close> only when that probe fails: it is enough that the \<^verbatim>\<open>.jpg\<close> entry of the
  key is as the first request left it, and, when the artifact is a \<^verbatim>\<open>.png\<close>, the \<^verbatim>\<open>.png\<close>
  entry too. When the artifact is non-empty, the later request is answered with the
  same path and finds the same bytes there; when it is empty, the later request takes
  it for the placeholder and goes to the fallback. In both cases no generator runs,
  and the files and the trace stay as they are.
\<close>

theorem cached_artifact_served_again:
  assumes gen: "trace (snd (getFilePreview env Config r w)) = trace w @ [g]" "isGenerator g"
      and bytes: "servedBytes (files (snd (getFilePreview env Config r w)))
                    (fst (getFilePreview env Config r w)) = Some b"
      and same_jpg:
        "files w' (Clean (previewPath Config (queryGet r ''id'') (queryGet r ''width'')
                            (queryGet r ''height'') @ ''.jpg''))
           = files (snd (getFilePreview env Config r w))
               (Clean (previewPath Config (queryGet r ''id'') (queryGet r ''width'')
                         (queryGet r ''height'') @ ''.jpg''))"
      and same_png:
        "fst (getFilePreview env Config r w)
           = HttpServeFile (previewPath Config (queryGet r ''id'') (queryGet r ''width'')
                              (queryGet r ''height'') @ ''.png'') \<longrightarrow>
         files w' (Clean (previewPath Config (queryGet r ''id'') (queryGet r ''width'')
                            (queryGet r ''height'') @ ''.png''))
           = files (snd (getFilePreview env Config r w))
               (Clean (previewPath Config (queryGet r ''id'') (queryGet r ''width'')
                         (queryGet r ''height'') @ ''.png''))"
      and meta: "outcome (resolveInfo env (queryGet r ''id'') (clock w')) = Inr info'"
                "Size info' \<le> 50 * 1000 * 1000"
  shows "(b \<noteq> [] \<longrightarrow>
            getFilePreview env Config r w' =
              (fst (getFilePreview env Config r w),
               w'\<lparr>clock := ended (resolveInfo env (queryGet r ''id'') (clock w'))\<rparr>)
            \<and> servedBytes (files w') (fst (getFilePreview env Config r w)) = Some b)
       \<and> (b = [] \<longrightarrow>
            getFilePreview env Config r w' =
              (serveIconPreview (files w') (Some info'),
               w'\<lparr>clock := ended (resolveInfo env (queryGet r ''id'') (clock w'))\<rparr>))
       \<and> (fst (getFilePreview env Config r w)
            = HttpServeFile (previewPath Config (queryGet r ''id'') (queryGet r ''width'')
                               (queryGet r ''height'') @ ''.jpg'')
          \<or> fst (getFilePreview env Config r w)
            = HttpServeFile (previewPath Config (queryGet r ''id'') (queryGet r ''width'')
                               (queryGet r ''height'') @ ''.png''))"
proof -
  define P where "P = previewPath Config (queryGet r ''id'') (queryGet r ''width'') (queryGet r ''height'')"
  define F where "F = previewFolder Config (queryGet r ''id'')"
  define fsA where "fsA = ignoreErr (files w) (os_Mkdir (files w) F)"
  define w'' where "w'' = w'\<lparr>clock := ended (resolveInfo env (queryGet r ''id'') (clock w'))\<rparr>"
  have fw'': "files w'' = files w'" by (simp add: w''_def)
  have alive: "fst (getFilePreview env Config r w) \<noteq> ProcessDies"
  proof
    assume "fst (getFilePreview env Config r w) = ProcessDies"
    with bytes show False by (simp add: servedBytes_def)
  qed
  note G = getFilePreview_generated [OF gen alive, folded P_def F_def fsA_def]
  note none = G [THEN conjunct1]
  note dw = G [THEN conjunct2, THEN conjunct1]
  note dh = G [THEN conjunct2, THEN conjunct2, THEN conjunct1]
  note slice = G [THEN conjunct2, THEN conjunct2, THEN conjunct2, THEN conjunct1]
  from G [THEN conjunct2, THEN conjunct2, THEN conjunct2, THEN conjunct2, THEN conjunct1]
  obtain e where jpg0: "os_Stat (files w) (P @ ''.jpg'') = Inl e" ..
  from G [THEN conjunct2, THEN conjunct2, THEN conjunct2, THEN conjunct2, THEN conjunct2]
  obtain ext b0 where ext: "ext = ''.jpg'' \<or> ext = ''.png''"
    and resp: "fst (getFilePreview env Config r w) = HttpServeFile (P @ ext)"
    and fs1: "files (snd (getFilePreview env Config r w)) = fsA(Clean (P @ ext) \<mapsto> RegFile b0)"
    by (elim conjE exE)
  from bytes have b0: "b0 = b" unfolding resp fs1 servedBytes_def by simp
  have key: "files (snd (getFilePreview env Config r w)) (Clean (P @ ext)) = Some (RegFile b)"
    unfolding fs1 b0 by simp
  from meta(2) dw dh
  have ceil: "\<not> (50 * 1000 * 1000 < Size info' \<or> 2000 < dimension (queryGet r ''width'') 214
           \<or> 2000 < dimension (queryGet r ''height'') 163)"
    by simp
  have served: "getFilePreview env Config r w' =
      servePreview env Config (queryGet r ''id'') info'
        (dimension (queryGet r ''width'') 214) (dimension (queryGet r ''height'') 163)
        (queryGet r ''width'') (queryGet r ''height'')
        (Join [Root Config, queryGet r ''id''])
        (Base (Join [Root Config, queryGet r ''id''])) F P w''"
    unfolding P_def F_def w''_def by (rule getFilePreview_served [OF none meta(1) ceil slice])
  have found: "files w' (Clean (P @ ext)) = Some (RegFile b)"
  proof (cases "ext = ''.jpg''")
    case True
    from same_jpg key show ?thesis unfolding P_def True by simp
  next
    case False
    with ext have png: "ext = ''.png''" by simp
    from same_png resp key show ?thesis unfolding P_def png by simp
  qed
  have probes: "(ext = ''.jpg'' \<and> os_Stat (files w'') (P @ ''.jpg'') = Inr (int (length b)))
              \<or> (ext = ''.png'' \<and> os_Stat (files w'') (P @ ''.jpg'') = Inl e
                    \<and> os_Stat (files w'') (P @ ''.png'') = Inr (int (length b)))"
  proof (cases "ext = ''.jpg''")
    case True
    from found have "files w'' (Clean (P @ ''.jpg'')) = Some (RegFile b)"
      unfolding fw'' True .
    then have "os_Stat (files w'') (P @ ''.jpg'') = Inr (int (length b))"
      by (intro os_Stat_RegFile) simp_all
    with True show ?thesis by simp
  next
    case False
    with ext have png: "ext = ''.png''" by simp
    have "files (snd (getFilePreview env Config r w)) (Clean (P @ ''.jpg'')) = fsA (Clean (P @ ''.jpg''))"
      unfolding fs1 png using Clean_jpg_png [of P] by simp
    also have "\<dots> = files w (Clean (P @ ''.jpg''))"
      unfolding fsA_def F_def
      by (rule ignoreErr_Mkdir_other) (rule Clean_folder_jpg [symmetric])
    finally have "files w'' (Clean (P @ ''.jpg'')) = files w (Clean (P @ ''.jpg''))"
      using same_jpg unfolding fw'' P_def by simp
    then have "os_Stat (files w'') (P @ ''.jpg'') = os_Stat (files w) (P @ ''.jpg'')"
      by (rule os_Stat_cong)
    then have j: "os_Stat (files w'') (P @ ''.jpg'') = Inl e" unfolding jpg0 .
    from found have "files w'' (Clean (P @ ''.png'')) = Some (RegFile b)"
      unfolding fw'' png .
    then have p: "os_Stat (files w'') (P @ ''.png'') = Inr (int (length b))"
      by (intro os_Stat_RegFile) simp_all
    from png j p show ?thesis by simp
  qed
  have one: "b \<noteq> [] \<longrightarrow>
            getFilePreview env Config r w' = (fst (getFilePreview env Config r w), w'')
            \<and> servedBytes (files w') (fst (getFilePreview env Config r w)) = Some b"
  proof
    assume "b \<noteq> []"
    then have len: "int (length b) \<noteq> 0" by simp
    from probes len
    have "servePreview env Config (queryGet r ''id'') info'
        (dimension (queryGet r ''width'') 214) (dimension (queryGet r ''height'') 163)
        (queryGet r ''width'') (queryGet r ''height'')
        (Join [Root Config, queryGet r ''id''])
        (Base (Join [Root Config, queryGet r ''id''])) F P w'' = (HttpServeFile (P @ ext), w'')"
      by (auto simp: servePreview_def)
    then have x: "getFilePreview env Config r w' = (fst (getFilePreview env Config r w), w'')"
      unfolding served resp .
    from found have y: "servedBytes (files w') (fst (getFilePreview env Config r w)) = Some b"
      unfolding resp servedBytes_def by simp
    from x y show "getFilePreview env Config r w' = (fst (getFilePreview env Config r w), w'')
            \<and> servedBytes (files w') (fst (getFilePreview env Config r w)) = Some b"
      by (rule conjI)
  qed
  have two: "b = [] \<longrightarrow>
            getFilePreview env Config r w' = (serveIconPreview (files w') (Some info'), w'')"
  proof
    assume "b = []"
    then have len: "int (length b) = 0" by simp
    from probes len
    have "servePreview env Config (queryGet r ''id'') info'
        (dimension (queryGet r ''width'') 214) (dimension (queryGet r ''height'') 163)
        (queryGet r ''width'') (queryGet r ''height'')
        (Join [Root Config, queryGet r ''id''])
        (Base (Join [Root Config, queryGet r ''id''])) F P w''
          = (serveIconPreview (files w'') (Some info'), w'')"
      by (auto simp: servePreview_def)
    then show "getFilePreview env Config r w' = (serveIconPreview (files w') (Some info'), w'')"
      unfolding served fw'' .
  qed
  from ext resp have three: "fst (getFilePreview env Config r w) = HttpServeFile (P @ ''.jpg'')
          \<or> fst (getFilePreview env Config r w) = HttpServeFile (P @ ''.png'')"
    by auto
  from one two three show ?thesis unfolding w''_def P_def by (intro conjI)
qed

theorem cached_artifact_served_again_witness:
  "trace (snd (getFilePreview sampleEnv localConfig (request ''photos/a.jpg'' ''100'' ''100'') sampleWorld))
     = trace sampleWorld
       @ [LocalGenerator ''/data/photos/a.jpg'' 100 100 ''/data/photos/.preview/a.jpg___100x100'']
   \<and> fst (getFilePreview sampleEnv localConfig (request ''photos/a.jpg'' ''100'' ''100'') sampleWorld)
       = HttpServeFile ''/data/photos/.preview/a.jpg___100x100.jpg''
   \<and> servedBytes
         (files (snd (getFilePreview sampleEnv localConfig (request ''photos/a.jpg'' ''100'' ''100'') sampleWorld)))
         (fst (getFilePreview sampleEnv localConfig (request ''photos/a.jpg'' ''100'' ''100'') sampleWorld))
       = Some ''JPEG''
   \<and> files shadowedWorld ''/data/photos/.preview/a.jpg___100x100.png'' = Some (RegFile ''OTHER'')
   \<and> fst (getFilePreview sampleEnv localConfig (request ''photos/a.jpg'' ''100'' ''100'') shadowedWorld)
       = HttpServeFile ''/data/photos/.preview/a.jpg___100x100.jpg''
   \<and> trace (snd (getFilePreview sampleEnv localConfig (request ''photos/a.jpg'' ''100'' ''100'') shadowedWorld))
       = trace shadowedWorld
   \<and> files (snd (getFilePreview sampleEnv localConfig (request ''photos/a.jpg'' ''100'' ''100'') shadowedWorld))
       = files shadowedWorld
   \<and> servedBytes (files shadowedWorld)
         (fst (getFilePreview sampleEnv localConfig (request ''photos/a.jpg'' ''100'' ''100'') sampleWorld))
       = Some ''JPEG''
   \<and> fst (getFilePreview sampleEnv remoteConfig (request ''docs/report.txt'' ''100'' ''100'')
          (snd (getFilePreview sampleEnv remoteConfig (request ''docs/report.txt'' ''100'' ''100'') sampleWorld)))
       = HttpServeFile ''/data/docs/.preview/report.txt___100x100.png''
   \<and> fst (getFilePreview sampleEnv remoteConfig (request ''docs/empty.txt'' ''100'' ''100'')
          (snd (getFilePreview sampleEnv remoteConfig (request ''docs/empty.txt'' ''100'' ''100'') sampleWorld)))
       = serveIconPreview
           (files (snd (getFilePreview sampleEnv remoteConfig (request ''docs/empty.txt'' ''100'' ''100'')
                          sampleWorld)))
           (Some emptyInfo)"
proof -
  let ?r = "request ''photos/a.jpg'' ''100'' ''100''"
  let ?first = "getFilePreview sampleEnv localConfig ?r sampleWorld"
  let ?g = "LocalGenerator ''/data/photos/a.jpg'' 100 100 ''/data/photos/.preview/a.jpg___100x100''"
  have g1: "trace (snd ?first) = trace sampleWorld @ [?g]" by code_simp
  have g2: "isGenerator ?g" by simp
  have p: "fst ?first = HttpServeFile ''/data/photos/.preview/a.jpg___100x100.jpg''" by code_simp
  have b1: "servedBytes (files (snd ?first)) (fst ?first) = Some ''JPEG''" by code_simp
  have b2: "''JPEG'' \<noteq> []" by simp
  have o: "files shadowedWorld ''/data/photos/.preview/a.jpg___100x100.png'' = Some (RegFile ''OTHER'')"
    by (simp add: shadowedWorld_def Let_def)
  have sj: "files shadowedWorld
              (Clean (previewPath localConfig (queryGet ?r ''id'') (queryGet ?r ''width'')
                        (queryGet ?r ''height'') @ ''.jpg''))
          = files (snd ?first)
              (Clean (previewPath localConfig (queryGet ?r ''id'') (queryGet ?r ''width'')
                        (queryGet ?r ''height'') @ ''.jpg''))"
    by code_simp
  have sp: "fst ?first
           = HttpServeFile (previewPath localConfig (queryGet ?r ''id'') (queryGet ?r ''width'')
                              (queryGet ?r ''height'') @ ''.png'') \<longrightarrow>
         files shadowedWorld
              (Clean (previewPath localConfig (queryGet ?r ''id'') (queryGet ?r ''width'')
                        (queryGet ?r ''height'') @ ''.png''))
          = files (snd ?first)
              (Clean (previewPath localConfig (queryGet ?r ''id'') (queryGet ?r ''width'')
                        (queryGet ?r ''height'') @ ''.png''))"
    by code_simp
  have m1: "outcome (resolveInfo sampleEnv (queryGet ?r ''id'') (clock shadowedWorld)) = Inr photoInfo"
    by code_simp
  have m2: "Size photoInfo \<le> 50 * 1000 * 1000" by (simp add: photoInfo_def)
  note t = cached_artifact_served_again [OF g1 g2 b1 sj sp m1 m2]
  note t1 = t [THEN conjunct1, THEN mp, OF b2]
  from t1 [THEN conjunct1] have a: "fst (getFilePreview sampleEnv localConfig ?r shadowedWorld)
       = HttpServeFile ''/data/photos/.preview/a.jpg___100x100.jpg''"
    unfolding p by simp
  from t1 [THEN conjunct1]
  have c: "trace (snd (getFilePreview sampleEnv localConfig ?r shadowedWorld)) = trace shadowedWorld"
    by simp
  from t1 [THEN conjunct1]
  have f: "files (snd (getFilePreview sampleEnv localConfig ?r shadowedWorld)) = files shadowedWorld"
    by simp
  note s = t1 [THEN conjunct2]
  let ?q = "request ''docs/report.txt'' ''100'' ''100''"
  let ?second = "getFilePreview sampleEnv remoteConfig ?q sampleWorld"
  let ?h = "ExternalGenerator ''/data/docs/.preview/report.txt___100x100'' ''report.txt'' ''100'' ''100''"
  have h1: "trace (snd ?second) = trace sampleWorld @ [?h]" by code_simp
  have h2: "isGenerator ?h" by simp
  have q: "fst ?second = HttpServeFile ''/data/docs/.preview/report.txt___100x100.png''" by code_simp
  have c1: "servedBytes (files (snd ?second)) (fst ?second) = Some ''PNG''" by code_simp
  have c2: "''PNG'' \<noteq> []" by simp
  have n1: "outcome (resolveInfo sampleEnv (queryGet ?q ''id'') (clock (snd ?second))) = Inr reportInfo"
    by code_simp
  have n2: "Size reportInfo \<le> 50 * 1000 * 1000" by (simp add: reportInfo_def)
  note u = cached_artifact_served_again [OF h1 h2 c1 refl impI [OF refl] n1 n2]
  from u [THEN conjunct1, THEN mp, OF c2, THEN conjunct1]
  have d: "fst (getFilePreview sampleEnv remoteConfig ?q (snd ?second))
       = HttpServeFile ''/data/docs/.preview/report.txt___100x100.png''"
    unfolding q by simp
  let ?e = "request ''docs/empty.txt'' ''100'' ''100''"
  let ?third = "getFilePreview sampleEnv remoteConfig ?e sampleWorld"
  let ?k = "ExternalGenerator ''/data/docs/.preview/empty.txt___100x100'' ''empty.txt'' ''100'' ''100''"
  have k1: "trace (snd ?third) = trace sampleWorld @ [?k]" by code_simp
  have k2: "isGenerator ?k" by simp
  have e1: "servedBytes (files (snd ?third)) (fst ?third) = Some []" by code_simp
  have l1: "outcome (resolveInfo sampleEnv (queryGet ?e ''id'') (clock (snd ?third))) = Inr emptyInfo"
    by code_simp
  have l2: "Size emptyInfo \<le> 50 * 1000 * 1000" by (simp add: emptyInfo_def)
  note v = cached_artifact_served_again [OF k1 k2 e1 refl impI [OF refl] l1 l2]
  from v [THEN conjunct2, THEN conjunct1, THEN mp, OF refl]
  have z: "fst (getFilePreview sampleEnv remoteConfig ?e (snd ?third))
       = serveIconPreview (files (snd ?third)) (Some emptyInfo)"
    by simp
  show ?thesis by (intro conjI g1 p b1 o a c f s d z)
qed

theorem empty_artifact_counterexample:
  "trace (snd (getFilePreview sampleEnv remoteConfig (request ''docs/empty.txt'' ''100'' ''100'') sampleWorld))
     = [ExternalGenerator ''/data/docs/.preview/empty.txt___100x100'' ''empty.txt'' ''100'' ''100'']
   \<and> fst (getFilePreview sampleEnv remoteConfig (request ''docs/empty.txt'' ''100'' ''100'') sampleWorld)
       = HttpServeFile ''/data/docs/.preview/empty.txt___100x100.jpg''
   \<and> servedBytes
         (files (snd (getFilePreview sampleEnv remoteConfig (request ''docs/empty.txt'' ''100'' ''100'') sampleWorld)))
         (fst (getFilePreview sampleEnv remoteConfig (request ''docs/empty.txt'' ''100'' ''100'') sampleWorld))
       = Some []
   \<and> fst (getFilePreview sampleEnv remoteConfig (request ''docs/empty.txt'' ''100'' ''100'')
          (snd (getFilePreview sampleEnv remoteConfig (request ''docs/empty.txt'' ''100'' ''100'') sampleWorld)))
       = HttpServeFile ''icons/big/txt.svg''
   \<and> servedBytes
         (files (snd (getFilePreview sampleEnv remoteConfig (request ''docs/empty.txt'' ''100'' ''100'') sampleWorld)))
         (HttpServeFile ''icons/big/txt.svg'')
       = Some ''<svg/>''"
proof -
  let ?r = "request ''docs/empty.txt'' ''100'' ''100''"
  let ?first = "getFilePreview sampleEnv remoteConfig ?r sampleWorld"
  have a: "trace (snd ?first)
     = [ExternalGenerator ''/data/docs/.preview/empty.txt___100x100'' ''empty.txt'' ''100'' ''100'']"
    by code_simp
  have b: "fst ?first = HttpServeFile ''/data/docs/.preview/empty.txt___100x100.jpg''" by code_simp
  have c: "servedBytes (files (snd ?first)) (fst ?first) = Some []" by code_simp
  have d: "fst (getFilePreview sampleEnv remoteConfig ?r (snd ?first)) = HttpServeFile ''icons/big/txt.svg''"
    by code_simp
  have e: "servedBytes (files (snd ?first)) (HttpServeFile ''icons/big/txt.svg'') = Some ''<svg/>''"
    by code_simp
  show ?thesis by (intro conjI a b c d e)
qed

end
